theory Spec2Isabelle
  imports Main "HOL-Library.Word" "HOL-Library.Sublist"
begin

section \<open>The users table\<close>

text \<open>
  The three source files are three versions of one Express server on one Postgres table:
  \<^item> \<^verbatim>\<open>src/server.js\<close> and \<^verbatim>\<open>src/unnamed/part_001\<close>: the Firebase-token variant.  Their
    \<^verbatim>\<open>requireAuth\<close>, \<^verbatim>\<open>GET /me\<close> and \<^verbatim>\<open>PUT /me\<close> differ only in how the Admin SDK is
    initialised and in a trailing \<^verbatim>\<open>|| null\<close> on the phone expression, which the following
    \<^verbatim>\<open>if (!phone)\<close> does not distinguish; one model serves both.
  \<^item> \<^verbatim>\<open>src/unnamed/part_000\<close>: the Twilio OTP variant (\<^verbatim>\<open>/auth/verify\<close>, and \<^verbatim>\<open>/me\<close> without
    \<^verbatim>\<open>requireAuth\<close>).

  The table is the one \<^verbatim>\<open>initDb\<close> creates:
  \<^verbatim>\<open>
    create table if not exists users (
      id serial primary key,
      phone text unique not null,
      full_name text, age int, address text, avatar_url text,
      created_at timestamptz default now(),
      updated_at timestamptz default now());
  \<close>
  A row is a record with the columns' names (\<open>id\<close> is a HOL constant, hence \<open>id_col\<close>).
  \<open>age int\<close> is a 32-bit column, read as two's complement.  The two timestamps are
  nullable in the schema, but no statement of the program ever writes them, so they always
  hold the default or the trigger's value; they are microsecond counts.
\<close>

record user_row =
  id_col :: nat
  phone :: string
  full_name :: "string option"
  age :: "32 word option"
  address :: "string option"
  avatar_url :: "string option"
  created_at :: int
  updated_at :: int

text \<open>
  The database state: the rows of \<open>users\<close> in insertion order, and the sequence behind
  \<open>id serial\<close> (the value the next \<open>nextval\<close> returns; a fresh sequence starts at 1).
\<close>

record db =
  users :: "user_row list"
  users_id_seq :: nat

definition initDb :: db where
  "initDb = \<lparr>users = [], users_id_seq = 1\<rparr>"

text \<open>
  The trigger \<^verbatim>\<open>trg_users_updated before update on users for each row\<close> runs
  \<^verbatim>\<open>begin new.updated_at = now(); return new; end\<close>.
\<close>

definition set_updated_at :: "int \<Rightarrow> user_row \<Rightarrow> user_row" where
  "set_updated_at t new = new\<lparr>updated_at := t\<rparr>"

text \<open>\<^verbatim>\<open>select * from users where phone=$1\<close>\<close>

definition select_by_phone :: "string \<Rightarrow> db \<Rightarrow> user_row list" where
  "select_by_phone p d = filter (\<lambda>r. phone r = p) (users d)"

text \<open>
  \<^verbatim>\<open>
    insert into users (phone, full_name, age, address, avatar_url)
    values ($1, $2, $3, $4, $5)
    on conflict (phone) do update
    set full_name = excluded.full_name, age = excluded.age,
        address = excluded.address, avatar_url = excluded.avatar_url
    returning *
  \<close>
  at clock reading \<open>t\<close> (the value of \<open>now()\<close>).  The default of \<open>id\<close> is evaluated
  before the arbiter index on \<open>phone\<close> is consulted, so the sequence advances on both
  paths.  The update path goes through the trigger.  The result is the returned rows and
  the new state.
\<close>

definition upsert_profile ::
  "int \<Rightarrow> string \<Rightarrow> string option \<Rightarrow> 32 word option \<Rightarrow> string option \<Rightarrow> string option
     \<Rightarrow> db \<Rightarrow> user_row list \<times> db" where
  "upsert_profile t p fn ag ad av d =
     (let i = users_id_seq d;
          d1 = d\<lparr>users_id_seq := i + 1\<rparr>;
          upd = (\<lambda>r. if phone r = p
                 then set_updated_at t
                        (r\<lparr>full_name := fn, age := ag, address := ad, avatar_url := av\<rparr>)
                 else r)
      in if \<exists>r \<in> set (users d). phone r = p
         then (map upd (select_by_phone p d), d1\<lparr>users := map upd (users d)\<rparr>)
         else (let new = \<lparr>id_col = i, phone = p, full_name = fn, age = ag, address = ad,
                           avatar_url = av, created_at = t, updated_at = t\<rparr>
               in ([new], d1\<lparr>users := users d @ [new]\<rparr>)))"

text \<open>
  \<^verbatim>\<open>
    insert into users (phone) values ($1)
    on conflict (phone) do update set phone = excluded.phone
    returning *
  \<close>
  (the statement of \<^verbatim>\<open>/auth/verify\<close>).  The other columns of a new row take their
  defaults: null, and \<open>now()\<close> for both timestamps.
\<close>

definition upsert_phone :: "int \<Rightarrow> string \<Rightarrow> db \<Rightarrow> user_row list \<times> db" where
  "upsert_phone t p d =
     (let i = users_id_seq d;
          d1 = d\<lparr>users_id_seq := i + 1\<rparr>;
          upd = (\<lambda>r. if phone r = p then set_updated_at t (r\<lparr>phone := p\<rparr>) else r)
      in if \<exists>r \<in> set (users d). phone r = p
         then (map upd (select_by_phone p d), d1\<lparr>users := map upd (users d)\<rparr>)
         else (let new = \<lparr>id_col = i, phone = p, full_name = None, age = None,
                           address = None, avatar_url = None,
                           created_at = t, updated_at = t\<rparr>
               in ([new], d1\<lparr>users := users d @ [new]\<rparr>)))"

text \<open>
  \<^verbatim>\<open>
    update users set full_name=$1, age=$2, address=$3, avatar_url=$4
    where phone=$5 returning *
  \<close>
  (the statement of \<^verbatim>\<open>PUT /me\<close> in the OTP variant).
\<close>

definition update_profile ::
  "int \<Rightarrow> string option \<Rightarrow> 32 word option \<Rightarrow> string option \<Rightarrow> string option \<Rightarrow> string
     \<Rightarrow> db \<Rightarrow> user_row list \<times> db" where
  "update_profile t fn ag ad av p d =
     (let upd = (\<lambda>r. if phone r = p
                 then set_updated_at t
                        (r\<lparr>full_name := fn, age := ag, address := ad, avatar_url := av\<rparr>)
                 else r)
      in (map upd (select_by_phone p d), d\<lparr>users := map upd (users d)\<rparr>))"

section \<open>Requests, responses and the environment\<close>

text \<open>
  The parts of an Express request the handlers read.  A field that is \<open>undefined\<close> or
  \<open>null\<close> is \<open>None\<close>.  The body's four profile fields are taken at the types of the
  columns they are written to; a body whose values Postgres cannot coerce to those types
  makes the query throw, which is the failing branch of \<open>pool_query_ok\<close> below.
\<close>

record request =
  authorization :: "string option"
  query_phone :: "string option"
  body_phone :: "string option"
  body_code :: "string option"
  fullName :: "string option"
  body_age :: "32 word option"
  body_address :: "string option"
  avatarUrl :: "string option"

text \<open>The decoded Firebase ID token, as far as the handlers probe it.\<close>

record claims =
  phone_number :: "string option"
  phoneNumber :: "string option"

text \<open>
  What a handler sees of the outside world during one request: the configuration flag,
  the two external services (\<open>None\<close>: the call throws), whether \<^verbatim>\<open>pool.query\<close> resolves,
  and the database clock.
\<close>

record env =
  AUTH_REQUIRED :: bool
  verifyIdToken :: "string \<Rightarrow> claims option"
  verificationChecks :: "string \<Rightarrow> string \<Rightarrow> string option"
  pool_query_ok :: bool
  now :: int

text \<open>
  \<^verbatim>\<open>res.status(s).json(b)\<close>; \<^verbatim>\<open>res.json(b)\<close> alone has status 200.  The bodies are a row,
  \<open>null\<close>, \<^verbatim>\<open>{error: e}\<close> and \<^verbatim>\<open>{user: row}\<close>.
\<close>

datatype body = Profile user_row | Null | Error string | User "user_row option"

type_synonym response = "nat \<times> body"

text \<open>JavaScript truthiness of a string-or-undefined, and \<^verbatim>\<open>a || b\<close> on such values.\<close>

definition truthy :: "string option \<Rightarrow> bool" where
  "truthy v = (case v of None \<Rightarrow> False | Some s \<Rightarrow> s \<noteq> [])"

definition js_or :: "string option \<Rightarrow> string option \<Rightarrow> string option" where
  "js_or a b = (if truthy a then a else b)"

text \<open>\<^verbatim>\<open>r.rows[0] || null\<close>\<close>

definition first_row_or_null :: "user_row list \<Rightarrow> body" where
  "first_row_or_null rs = (case rs of [] \<Rightarrow> Null | r # _ \<Rightarrow> Profile r)"

section \<open>The Firebase variant\<close>

text \<open>
  \<^verbatim>\<open>
  async function requireAuth(req, res, next) {
    if (!AUTH_REQUIRED) return next();
    const auth = req.headers.authorization || '';
    const token = auth.startsWith('Bearer ') ? auth.slice(7) : null;
    if (!token) return res.status(401).json({ error: 'missing_token' });
    try {
      const decoded = await admin.auth().verifyIdToken(token);
      req.auth = decoded;
      return next();
    } catch (e) { return res.status(401).json({ error: 'invalid_token' }); }
  }
  \<close>
  \<open>Inl\<close> is the response that ends the request, \<open>Inr\<close> the value of \<open>req.auth\<close> with
  which the route handler runs.
\<close>

definition bearer_token :: "string option \<Rightarrow> string option" where
  "bearer_token h =
     (let auth = (case h of None \<Rightarrow> [] | Some a \<Rightarrow> a)
      in if prefix ''Bearer '' auth then Some (drop 7 auth) else None)"

definition requireAuth :: "env \<Rightarrow> request \<Rightarrow> response + claims option" where
  "requireAuth e req =
     (if \<not> AUTH_REQUIRED e then Inr None
      else let token = bearer_token (authorization req)
           in if \<not> truthy token then Inl (401, Error ''missing_token'')
              else (case verifyIdToken e (the token) of
                      None \<Rightarrow> Inl (401, Error ''invalid_token'')
                    | Some decoded \<Rightarrow> Inr (Some decoded)))"

text \<open>\<^verbatim>\<open>req.auth?.phone_number || req.auth?.phoneNumber\<close>\<close>

definition auth_phone :: "claims option \<Rightarrow> string option" where
  "auth_phone a =
     (case a of None \<Rightarrow> None | Some c \<Rightarrow> js_or (phone_number c) (phoneNumber c))"

text \<open>
  \<^verbatim>\<open>app.get('/me', requireAuth, ...)\<close>; \<open>get_me_phone\<close> is its
  \<^verbatim>\<open>const phone = AUTH_REQUIRED ? (...) : (req.query.phone || null)\<close>.
\<close>

definition get_me_phone :: "env \<Rightarrow> claims option \<Rightarrow> request \<Rightarrow> string option" where
  "get_me_phone e a req =
     (if AUTH_REQUIRED e then auth_phone a else js_or (query_phone req) None)"

definition get_me_handler :: "env \<Rightarrow> claims option \<Rightarrow> request \<Rightarrow> db \<Rightarrow> response \<times> db" where
  "get_me_handler e a req d =
     (let ph = get_me_phone e a req
      in if \<not> truthy ph then ((400, Error ''missing_phone''), d)
         else if \<not> pool_query_ok e then ((500, Error ''me_failed''), d)
         else ((200, first_row_or_null (select_by_phone (the ph) d)), d))"

definition get_me :: "env \<Rightarrow> request \<Rightarrow> db \<Rightarrow> response \<times> db" where
  "get_me e req d =
     (case requireAuth e req of
        Inl resp \<Rightarrow> (resp, d)
      | Inr a \<Rightarrow> get_me_handler e a req d)"

text \<open>
  \<^verbatim>\<open>app.put('/me', requireAuth, ...)\<close>; \<open>put_me_phone\<close> is its
  \<^verbatim>\<open>const phone = AUTH_REQUIRED ? (...) : (req.body?.phone || null)\<close>.
\<close>

definition put_me_phone :: "env \<Rightarrow> claims option \<Rightarrow> request \<Rightarrow> string option" where
  "put_me_phone e a req =
     (if AUTH_REQUIRED e then auth_phone a else js_or (body_phone req) None)"

definition put_me_handler :: "env \<Rightarrow> claims option \<Rightarrow> request \<Rightarrow> db \<Rightarrow> response \<times> db" where
  "put_me_handler e a req d =
     (let ph = put_me_phone e a req
      in if \<not> truthy ph then ((400, Error ''missing_phone''), d)
         else if \<not> pool_query_ok e then ((500, Error ''update_failed''), d)
         else (let (rs, d') = upsert_profile (now e) (the ph) (fullName req) (body_age req)
                                (body_address req) (avatarUrl req) d
               in ((200, first_row_or_null rs), d')))"

definition put_me :: "env \<Rightarrow> request \<Rightarrow> db \<Rightarrow> response \<times> db" where
  "put_me e req d =
     (case requireAuth e req of
        Inl resp \<Rightarrow> (resp, d)
      | Inr a \<Rightarrow> put_me_handler e a req d)"

section \<open>The OTP variant\<close>

text \<open>\<^verbatim>\<open>const toE164 = (s) => (s?.startsWith('+') ? s : `+${s}`);\<close>\<close>

definition toE164 :: "string \<Rightarrow> string" where
  "toE164 s = (if prefix ''+'' s then s else ''+'' @ s)"

text \<open>
  \<^verbatim>\<open>app.post('/auth/verify', ...)\<close>: the Twilio check comes first; its throwing, like the
  query's, ends in the \<open>catch\<close>.
\<close>

definition auth_verify :: "env \<Rightarrow> request \<Rightarrow> db \<Rightarrow> response \<times> db" where
  "auth_verify e req d =
     (if \<not> truthy (body_phone req) \<or> \<not> truthy (body_code req)
      then ((400, Error ''missing_params''), d)
      else (case verificationChecks e (toE164 (the (body_phone req))) (the (body_code req)) of
              None \<Rightarrow> ((500, Error ''verify_failed''), d)
            | Some status \<Rightarrow>
                if status \<noteq> ''approved'' then ((401, Error ''invalid_code''), d)
                else if \<not> pool_query_ok e then ((500, Error ''verify_failed''), d)
                else (let (rs, d') = upsert_phone (now e) (toE164 (the (body_phone req))) d
                      in ((200, User (case rs of [] \<Rightarrow> None | r # _ \<Rightarrow> Some r)), d'))))"

text \<open>\<^verbatim>\<open>app.get('/me', ...)\<close> of the OTP variant: the phone is \<^verbatim>\<open>req.query.phone\<close>.\<close>

definition get_me_otp :: "env \<Rightarrow> request \<Rightarrow> db \<Rightarrow> response \<times> db" where
  "get_me_otp e req d =
     (if \<not> truthy (query_phone req) then ((400, Error ''missing_phone''), d)
      else if \<not> pool_query_ok e then ((500, Error ''me_failed''), d)
      else ((200, first_row_or_null (select_by_phone (the (query_phone req)) d)), d))"

text \<open>\<^verbatim>\<open>app.put('/me', ...)\<close> of the OTP variant: a plain \<open>update\<close>.\<close>

definition put_me_otp :: "env \<Rightarrow> request \<Rightarrow> db \<Rightarrow> response \<times> db" where
  "put_me_otp e req d =
     (if \<not> truthy (body_phone req) then ((400, Error ''missing_phone''), d)
      else if \<not> pool_query_ok e then ((500, Error ''update_failed''), d)
      else (let (rs, d') = update_profile (now e) (fullName req) (body_age req)
                             (body_address req) (avatarUrl req) (the (body_phone req)) d
            in ((200, first_row_or_null rs), d')))"

section \<open>Sequences of requests\<close>

text \<open>
  Every route that touches the table, of either variant.  A history is a list of
  requests, each with the environment it ran in; requests are served one statement at a
  time, each statement atomic.
\<close>

datatype event =
  GetMe request | PutMe request | AuthVerify request | GetMeOtp request | PutMeOtp request

fun handle :: "env \<Rightarrow> event \<Rightarrow> db \<Rightarrow> response \<times> db" where
  "handle e (GetMe req) d = get_me e req d"
| "handle e (PutMe req) d = put_me e req d"
| "handle e (AuthVerify req) d = auth_verify e req d"
| "handle e (GetMeOtp req) d = get_me_otp e req d"
| "handle e (PutMeOtp req) d = put_me_otp e req d"

fun run :: "(env \<times> event) list \<Rightarrow> db \<Rightarrow> db" where
  "run [] d = d"
| "run ((e, ev) # rest) d = run rest (snd (handle e ev d))"

text \<open>
  The constraints of the schema as a predicate on states: \<open>phone\<close> unique, \<open>id\<close> a
  primary key, and every \<open>id\<close> already drawn from the sequence.
\<close>

definition users_inv :: "db \<Rightarrow> bool" where
  "users_inv d \<longleftrightarrow>
     distinct (map phone (users d)) \<and> distinct (map id_col (users d)) \<and>
     (\<forall>r \<in> set (users d). id_col r < users_id_seq d)"

text \<open>The number of rows with a given phone.\<close>

definition rows_for :: "string \<Rightarrow> db \<Rightarrow> nat" where
  "rows_for p d = length (select_by_phone p d)"

text \<open>
  The timestamp invariant, relative to the latest clock reading \<open>t\<close>: no row was
  updated before it was created, nor after \<open>t\<close>.
\<close>

definition ts_inv :: "int \<Rightarrow> db \<Rightarrow> bool" where
  "ts_inv t d \<longleftrightarrow>
     (\<forall>r \<in> set (users d). created_at r \<le> updated_at r \<and> updated_at r \<le> t)"

text \<open>The two \<^verbatim>\<open>/me\<close> routes of the OTP variant.\<close>

definition is_otp_me :: "event \<Rightarrow> bool" where
  "is_otp_me ev = (case ev of GetMeOtp _ \<Rightarrow> True | PutMeOtp _ \<Rightarrow> True | _ \<Rightarrow> False)"

section \<open>The failure kinds of the specification\<close>

text \<open>
  The specification names the ways a request can fail (its resolver contract and its
  store contract).  \<open>resolve_spec\<close> follows the specification's description of the
  identity resolver, not the handlers' code: verified mode fails with \<open>MissingToken\<close>
  when there is no credential, \<open>InvalidToken\<close> when verification fails and
  \<open>MissingPhoneClaim\<close> when the claims hold no phone number; trusted-input mode fails
  with \<open>MissingPhone\<close> when the caller-supplied field is empty.  \<open>outcome_spec\<close> adds
  the store's \<open>StoreUnavailable\<close>.  They classify a request; the handlers above are
  compared with them.
\<close>

datatype failure = MissingToken | InvalidToken | MissingPhoneClaim | MissingPhone | StoreUnavailable

definition resolve_spec :: "env \<Rightarrow> request \<Rightarrow> string option \<Rightarrow> failure + string" where
  "resolve_spec e req field =
     (if AUTH_REQUIRED e
      then (let token = bearer_token (authorization req)
            in if \<not> truthy token then Inl MissingToken
               else (case verifyIdToken e (the token) of
                       None \<Rightarrow> Inl InvalidToken
                     | Some c \<Rightarrow>
                         (let ph = js_or (phone_number c) (phoneNumber c)
                          in if truthy ph then Inr (the ph) else Inl MissingPhoneClaim)))
      else if truthy field then Inr (the field) else Inl MissingPhone)"

definition outcome_spec :: "env \<Rightarrow> request \<Rightarrow> string option \<Rightarrow> failure + string" where
  "outcome_spec e req field =
     (case resolve_spec e req field of
        Inl f \<Rightarrow> Inl f
      | Inr p \<Rightarrow> if pool_query_ok e then Inr p else Inl StoreUnavailable)"

text \<open>The status the handlers answer each failure kind with.\<close>

fun http_status :: "failure \<Rightarrow> nat" where
  "http_status MissingToken = 401"
| "http_status InvalidToken = 401"
| "http_status MissingPhoneClaim = 400"
| "http_status MissingPhone = 400"
| "http_status StoreUnavailable = 500"

section \<open>Example requests\<close>

text \<open>
  Concrete values on which the theorems below are run: an empty request, a token
  verifier that knows two tokens (one whose claims carry a phone number, one whose claims
  carry none), an OTP check that approves one code, and an environment with a reachable
  store, parameterised by the mode flag and the clock.
\<close>

definition ex_request :: request where
  "ex_request = \<lparr>authorization = None, query_phone = None, body_phone = None,
                  body_code = None, fullName = None, body_age = None,
                  body_address = None, avatarUrl = None\<rparr>"

definition ex_verifier :: "string \<Rightarrow> claims option" where
  "ex_verifier tok =
     (if tok = ''good'' then Some \<lparr>phone_number = Some ''+6591234567'', phoneNumber = None\<rparr>
      else if tok = ''nophone'' then Some \<lparr>phone_number = None, phoneNumber = None\<rparr>
      else None)"

definition ex_checks :: "string \<Rightarrow> string \<Rightarrow> string option" where
  "ex_checks to code = (if code = ''123456'' then Some ''approved'' else Some ''pending'')"

definition ex_env :: "bool \<Rightarrow> int \<Rightarrow> env" where
  "ex_env auth t = \<lparr>AUTH_REQUIRED = auth, verifyIdToken = ex_verifier,
                    verificationChecks = ex_checks, pool_query_ok = True, now = t\<rparr>"

definition ex_put1 :: request where
  "ex_put1 = ex_request\<lparr>body_phone := Some ''+6591234567'', fullName := Some ''Ana Tan'',
                        body_age := Some 29\<rparr>"

definition ex_put2 :: request where
  "ex_put2 = ex_request\<lparr>body_phone := Some ''+6591234567'',
                        body_address := Some ''12 Orchard Rd''\<rparr>"

definition ex_get :: request where
  "ex_get = ex_request\<lparr>query_phone := Some ''+6591234567''\<rparr>"

definition ex_bearer :: "string \<Rightarrow> request \<Rightarrow> request" where
  "ex_bearer tok req = req\<lparr>authorization := Some (''Bearer '' @ tok)\<rparr>"

definition ex_verify :: request where
  "ex_verify = ex_request\<lparr>body_phone := Some ''6591234567'', body_code := Some ''123456''\<rparr>"

section \<open>Facts about the statements and the handlers\<close>

lemma truthy_iff: "truthy v \<longleftrightarrow> (\<exists>s. v = Some s \<and> s \<noteq> [])"
  by (cases v) (simp_all add: truthy_def)

lemma select_by_phone_Nil_iff:
  "select_by_phone p d = [] \<longleftrightarrow> (\<forall>r \<in> set (users d). phone r \<noteq> p)"
  by (simp add: select_by_phone_def filter_empty_conv)

lemma distinct_key_filter_le1:
  "distinct (map f xs) \<Longrightarrow> length (filter (\<lambda>r. f r = k) xs) \<le> Suc 0"
  by (induction xs) (auto simp: filter_empty_conv image_iff)

lemma users_upsert_profile:
  "users (snd (upsert_profile t p fn ag ad av d)) =
     (if \<exists>r \<in> set (users d). phone r = p
      then map (\<lambda>r. if phone r = p
                 then r\<lparr>full_name := fn, age := ag, address := ad, avatar_url := av,
                        updated_at := t\<rparr>
                 else r) (users d)
      else users d @ [\<lparr>id_col = users_id_seq d, phone = p, full_name = fn, age = ag,
                        address = ad, avatar_url = av, created_at = t, updated_at = t\<rparr>])"
  by (simp add: upsert_profile_def Let_def set_updated_at_def)

lemma seq_upsert_profile:
  "users_id_seq (snd (upsert_profile t p fn ag ad av d)) = Suc (users_id_seq d)"
  by (simp add: upsert_profile_def Let_def)

lemma users_upsert_phone:
  "users (snd (upsert_phone t p d)) =
     (if \<exists>r \<in> set (users d). phone r = p
      then map (\<lambda>r. if phone r = p then r\<lparr>updated_at := t\<rparr> else r) (users d)
      else users d @ [\<lparr>id_col = users_id_seq d, phone = p, full_name = None, age = None,
                        address = None, avatar_url = None, created_at = t, updated_at = t\<rparr>])"
  by (auto simp add: upsert_phone_def Let_def set_updated_at_def)

lemma seq_upsert_phone:
  "users_id_seq (snd (upsert_phone t p d)) = Suc (users_id_seq d)"
  by (simp add: upsert_phone_def Let_def)

lemma users_update_profile:
  "users (snd (update_profile t fn ag ad av p d)) =
     map (\<lambda>r. if phone r = p
                 then r\<lparr>full_name := fn, age := ag, address := ad, avatar_url := av,
                        updated_at := t\<rparr>
                 else r) (users d)"
  by (simp add: update_profile_def Let_def set_updated_at_def)

lemma seq_update_profile:
  "users_id_seq (snd (update_profile t fn ag ad av p d)) = users_id_seq d"
  by (simp add: update_profile_def Let_def)

lemma users_inv_upsert_profile:
  assumes "users_inv d"
  shows "users_inv (snd (upsert_profile t p fn ag ad av d))"
proof (cases "\<exists>r \<in> set (users d). phone r = p")
  case True
  let ?upd = "\<lambda>r. if phone r = p
                 then r\<lparr>full_name := fn, age := ag, address := ad, avatar_url := av,
                        updated_at := t\<rparr>
                 else r"
  have ph: "map phone (map ?upd (users d)) = map phone (users d)"
    and ids: "map id_col (map ?upd (users d)) = map id_col (users d)"
    by (simp_all add: comp_def if_distrib cong: if_cong)
  have "\<forall>r \<in> set (map ?upd (users d)). id_col r < Suc (users_id_seq d)"
    using assms by (auto simp: users_inv_def less_Suc_eq)
  with True assms ph ids show ?thesis
    unfolding users_inv_def users_upsert_profile seq_upsert_profile
    by (simp del: map_map set_map)
next
  case False
  with assms show ?thesis
    unfolding users_inv_def users_upsert_profile seq_upsert_profile
    by (auto simp: less_Suc_eq)
qed

lemma users_inv_upsert_phone:
  assumes "users_inv d"
  shows "users_inv (snd (upsert_phone t p d))"
proof (cases "\<exists>r \<in> set (users d). phone r = p")
  case True
  let ?upd = "\<lambda>r. if phone r = p then r\<lparr>updated_at := t\<rparr> else r"
  have ph: "map phone (map ?upd (users d)) = map phone (users d)"
    and ids: "map id_col (map ?upd (users d)) = map id_col (users d)"
    by (simp_all add: comp_def if_distrib cong: if_cong)
  have "\<forall>r \<in> set (map ?upd (users d)). id_col r < Suc (users_id_seq d)"
    using assms by (auto simp: users_inv_def less_Suc_eq)
  with True assms ph ids show ?thesis
    unfolding users_inv_def users_upsert_phone seq_upsert_phone
    by (simp del: map_map set_map)
next
  case False
  with assms show ?thesis
    unfolding users_inv_def users_upsert_phone seq_upsert_phone
    by (auto simp: less_Suc_eq)
qed

lemma users_inv_update_profile:
  assumes "users_inv d"
  shows "users_inv (snd (update_profile t fn ag ad av p d))"
proof -
  let ?upd = "\<lambda>r. if phone r = p
                 then r\<lparr>full_name := fn, age := ag, address := ad, avatar_url := av,
                        updated_at := t\<rparr>
                 else r"
  have ph: "map phone (map ?upd (users d)) = map phone (users d)"
    and ids: "map id_col (map ?upd (users d)) = map id_col (users d)"
    by (simp_all add: comp_def if_distrib cong: if_cong)
  have "\<forall>r \<in> set (map ?upd (users d)). id_col r < users_id_seq d"
    using assms by (auto simp: users_inv_def)
  with assms ph ids show ?thesis
    unfolding users_inv_def users_update_profile seq_update_profile
    by (simp del: map_map set_map)
qed

lemma snd_get_me: "snd (get_me e req d) = d"
  by (simp add: get_me_def get_me_handler_def Let_def split: sum.splits)

lemma snd_get_me_otp: "snd (get_me_otp e req d) = d"
  by (simp add: get_me_otp_def)

lemma snd_put_me:
  "snd (put_me e req d) =
     (case requireAuth e req of
        Inl resp \<Rightarrow> d
      | Inr a \<Rightarrow>
          if truthy (put_me_phone e a req) \<and> pool_query_ok e
          then snd (upsert_profile (now e) (the (put_me_phone e a req)) (fullName req)
                      (body_age req) (body_address req) (avatarUrl req) d)
          else d)"
  by (simp add: put_me_def put_me_handler_def Let_def case_prod_beta split: sum.splits)

lemma snd_auth_verify:
  "snd (auth_verify e req d) =
     (if truthy (body_phone req) \<and> truthy (body_code req) \<and>
         verificationChecks e (toE164 (the (body_phone req))) (the (body_code req))
           = Some ''approved'' \<and> pool_query_ok e
      then snd (upsert_phone (now e) (toE164 (the (body_phone req))) d)
      else d)"
  by (simp add: auth_verify_def Let_def case_prod_beta split: option.splits)

lemma snd_put_me_otp:
  "snd (put_me_otp e req d) =
     (if truthy (body_phone req) \<and> pool_query_ok e
      then snd (update_profile (now e) (fullName req) (body_age req) (body_address req)
                  (avatarUrl req) (the (body_phone req)) d)
      else d)"
  by (simp add: put_me_otp_def Let_def case_prod_beta)

lemma users_inv_handle: "users_inv d \<Longrightarrow> users_inv (snd (handle e ev d))"
proof (cases ev)
  case (GetMe r) then show "users_inv d \<Longrightarrow> ?thesis" by (simp add: snd_get_me)
next
  case (PutMe r) then show "users_inv d \<Longrightarrow> ?thesis"
    by (simp add: snd_put_me users_inv_upsert_profile split: sum.splits)
next
  case (AuthVerify r) then show "users_inv d \<Longrightarrow> ?thesis"
    by (simp add: snd_auth_verify users_inv_upsert_phone)
next
  case (GetMeOtp r) then show "users_inv d \<Longrightarrow> ?thesis" by (simp add: snd_get_me_otp)
next
  case (PutMeOtp r) then show "users_inv d \<Longrightarrow> ?thesis"
    by (simp add: snd_put_me_otp users_inv_update_profile)
qed

lemma users_inv_run: "users_inv d \<Longrightarrow> users_inv (run evs d)"
  by (induction evs arbitrary: d) (auto simp: users_inv_handle)

lemma users_inv_initDb: "users_inv initDb"
  by (simp add: users_inv_def initDb_def)

lemma users_inv_rows_for: "users_inv d \<Longrightarrow> rows_for p d \<le> Suc 0"
  unfolding users_inv_def rows_for_def select_by_phone_def
  by (simp add: distinct_key_filter_le1)

lemma filter_map_nonempty: "x \<in> set xs \<Longrightarrow> P (f x) \<Longrightarrow> filter P (map f xs) \<noteq> []"
  by (auto simp: filter_empty_conv)

lemma filter_map_others:
  assumes "\<And>x. Q x \<Longrightarrow> f x = x" and "\<And>x. Q (f x) = Q x"
  shows "filter Q (map f xs) = filter Q xs"
  using assms by (induction xs) auto

lemma select_upsert_profile_fields:
  assumes "r \<in> set (select_by_phone p (snd (upsert_profile t p fn ag ad av d)))"
  shows "phone r = p \<and> full_name r = fn \<and> age r = ag \<and> address r = ad \<and>
         avatar_url r = av \<and> updated_at r = t"
proof (cases "\<exists>r \<in> set (users d). phone r = p")
  case True
  with assms obtain r0 where "r0 \<in> set (users d)"
    and r: "r = (if phone r0 = p
                 then r0\<lparr>full_name := fn, age := ag, address := ad, avatar_url := av,
                         updated_at := t\<rparr>
                 else r0)"
    and "phone r = p"
    unfolding select_by_phone_def users_upsert_profile by auto
  then have "phone r0 = p" by (simp split: if_splits)
  with r have "r = r0\<lparr>full_name := fn, age := ag, address := ad, avatar_url := av,
                         updated_at := t\<rparr>" by simp
  with \<open>phone r = p\<close> show ?thesis by simp
next
  case False
  with assms have "r = \<lparr>id_col = users_id_seq d, phone = p, full_name = fn, age = ag,
                        address = ad, avatar_url = av, created_at = t, updated_at = t\<rparr>"
    unfolding select_by_phone_def users_upsert_profile by auto
  then show ?thesis by simp
qed

lemma select_upsert_profile_nonempty:
  "select_by_phone p (snd (upsert_profile t p fn ag ad av d)) \<noteq> []"
proof (cases "\<exists>r \<in> set (users d). phone r = p")
  case True
  then obtain r0 where r0: "r0 \<in> set (users d)" "phone r0 = p" by blast
  let ?upd = "\<lambda>r. if phone r = p
                 then r\<lparr>full_name := fn, age := ag, address := ad, avatar_url := av,
                        updated_at := t\<rparr>
                 else r"
  from r0 have "filter (\<lambda>r. phone r = p) (map ?upd (users d)) \<noteq> []"
    by (intro filter_map_nonempty [of r0]) simp_all
  with True show ?thesis
    unfolding select_by_phone_def users_upsert_profile by simp
next
  case False
  then show ?thesis
    unfolding select_by_phone_def users_upsert_profile by simp
qed

lemma select_upsert_profile_Cons:
  "\<exists>r rs. select_by_phone p (snd (upsert_profile t p fn ag ad av d)) = r # rs \<and>
      phone r = p \<and> full_name r = fn \<and> age r = ag \<and> address r = ad \<and>
      avatar_url r = av \<and> updated_at r = t"
proof (cases "select_by_phone p (snd (upsert_profile t p fn ag ad av d))")
  case Nil
  then show ?thesis using select_upsert_profile_nonempty by blast
next
  case (Cons r rs)
  then have "r \<in> set (select_by_phone p (snd (upsert_profile t p fn ag ad av d)))"
    by simp
  from select_upsert_profile_fields [OF this] Cons show ?thesis by blast
qed

lemma select_upsert_profile_single:
  assumes "users_inv d"
  shows "\<exists>r. select_by_phone p (snd (upsert_profile t p fn ag ad av d)) = [r] \<and>
      phone r = p \<and> full_name r = fn \<and> age r = ag \<and> address r = ad \<and>
      avatar_url r = av \<and> updated_at r = t"
proof -
  obtain r rs where c: "select_by_phone p (snd (upsert_profile t p fn ag ad av d)) = r # rs"
    and f: "phone r = p \<and> full_name r = fn \<and> age r = ag \<and> address r = ad \<and>
      avatar_url r = av \<and> updated_at r = t"
    using select_upsert_profile_Cons by blast
  have "rows_for p (snd (upsert_profile t p fn ag ad av d)) \<le> Suc 0"
    by (rule users_inv_rows_for [OF users_inv_upsert_profile [OF assms]])
  with c have "rs = []" by (simp add: rows_for_def)
  with c f show ?thesis by blast
qed

lemma fst_get_me_ok:
  assumes "requireAuth e req = Inr a" "get_me_phone e a req = Some p" "p \<noteq> []"
    "pool_query_ok e"
  shows "get_me e req d = ((200, first_row_or_null (select_by_phone p d)), d)"
  using assms by (simp add: get_me_def get_me_handler_def Let_def truthy_def)

lemma snd_put_me_ok:
  assumes "requireAuth e req = Inr a" "put_me_phone e a req = Some p" "p \<noteq> []"
    "pool_query_ok e"
  shows "snd (put_me e req d) =
     snd (upsert_profile (now e) p (fullName req) (body_age req) (body_address req)
            (avatarUrl req) d)"
  using assms by (simp add: snd_put_me truthy_def)

lemma ts_inv_mono: "ts_inv t d \<Longrightarrow> t \<le> t' \<Longrightarrow> ts_inv t' d"
  by (fastforce simp: ts_inv_def)

lemma ts_inv_map:
  assumes "ts_inv t d" and "t \<le> t'"
    and f: "\<And>r. f r = r \<or> (created_at (f r) = created_at r \<and> updated_at (f r) = t')"
  shows "\<forall>r \<in> set (map f (users d)). created_at r \<le> updated_at r \<and> updated_at r \<le> t'"
proof
  fix r assume "r \<in> set (map f (users d))"
  then obtain r0 where r0: "r0 \<in> set (users d)" and r: "r = f r0" by auto
  from r0 assms(1) have a: "created_at r0 \<le> updated_at r0" "updated_at r0 \<le> t"
    by (simp_all add: ts_inv_def)
  from f [of r0] show "created_at r \<le> updated_at r \<and> updated_at r \<le> t'"
  proof
    assume "f r0 = r0"
    with a assms(2) r show ?thesis by simp
  next
    assume "created_at (f r0) = created_at r0 \<and> updated_at (f r0) = t'"
    with a assms(2) r show ?thesis by simp
  qed
qed

lemma ts_inv_upsert_profile:
  assumes "ts_inv t d" and "t \<le> t'"
  shows "ts_inv t' (snd (upsert_profile t' p fn ag ad av d))"
proof (cases "\<exists>r \<in> set (users d). phone r = p")
  case True
  then show ?thesis
    unfolding ts_inv_def [of t'] users_upsert_profile
    by (simp only: if_True) (rule ts_inv_map [OF assms], simp)
next
  case False
  with ts_inv_mono [OF assms] show ?thesis
    unfolding ts_inv_def users_upsert_profile by simp
qed

lemma ts_inv_upsert_phone:
  assumes "ts_inv t d" and "t \<le> t'"
  shows "ts_inv t' (snd (upsert_phone t' p d))"
proof (cases "\<exists>r \<in> set (users d). phone r = p")
  case True
  then show ?thesis
    unfolding ts_inv_def [of t'] users_upsert_phone
    by (simp only: if_True) (rule ts_inv_map [OF assms], simp)
next
  case False
  with ts_inv_mono [OF assms] show ?thesis
    unfolding ts_inv_def users_upsert_phone by simp
qed

lemma ts_inv_update_profile:
  assumes "ts_inv t d" and "t \<le> t'"
  shows "ts_inv t' (snd (update_profile t' fn ag ad av p d))"
  unfolding ts_inv_def [of t'] users_update_profile
  by (rule ts_inv_map [OF assms], simp)

lemma ts_inv_handle:
  assumes "ts_inv t d" and "t \<le> now e"
  shows "ts_inv (now e) (snd (handle e ev d))"
proof (cases ev)
  case (GetMe r) with assms show ?thesis by (simp add: snd_get_me ts_inv_mono)
next
  case (PutMe r) with assms show ?thesis
    by (simp add: snd_put_me ts_inv_mono ts_inv_upsert_profile split: sum.splits)
next
  case (AuthVerify r) with assms show ?thesis
    by (simp add: snd_auth_verify ts_inv_mono ts_inv_upsert_phone)
next
  case (GetMeOtp r) with assms show ?thesis by (simp add: snd_get_me_otp ts_inv_mono)
next
  case (PutMeOtp r) with assms show ?thesis
    by (simp add: snd_put_me_otp ts_inv_mono ts_inv_update_profile)
qed

lemma ts_inv_run:
  "ts_inv t d \<Longrightarrow> sorted (t # map (\<lambda>x. now (fst x)) evs) \<Longrightarrow>
     \<exists>t'. ts_inv t' (run evs d)"
proof (induction evs arbitrary: t d)
  case Nil
  then show ?case by auto
next
  case (Cons x evs)
  obtain e ev where x: "x = (e, ev)" by (cases x)
  from Cons.prems have "t \<le> now e" and s: "sorted (now e # map (\<lambda>x. now (fst x)) evs)"
    by (simp_all add: x)
  from ts_inv_handle [OF Cons.prems(1) this(1)] have "ts_inv (now e) (snd (handle e ev d))" .
  from Cons.IH [OF this s] show ?case by (simp add: x)
qed

lemma changed_rows_upsert_profile:
  assumes "r \<in> set (users (snd (upsert_profile t p fn ag ad av d)))" and "r \<notin> set (users d)"
  shows "updated_at r = t \<and> (select_by_phone (phone r) d = [] \<longrightarrow> created_at r = t)"
proof (cases "\<exists>r \<in> set (users d). phone r = p")
  case True
  with assms obtain r0 where r0: "r0 \<in> set (users d)"
    and r: "r = (if phone r0 = p
                 then r0\<lparr>full_name := fn, age := ag, address := ad, avatar_url := av,
                         updated_at := t\<rparr>
                 else r0)"
    unfolding users_upsert_profile by auto
  with assms(2) have p0: "phone r0 = p" by (auto split: if_splits)
  with r have r': "r = r0\<lparr>full_name := fn, age := ag, address := ad, avatar_url := av,
                         updated_at := t\<rparr>" by simp
  then have "phone r = phone r0" by simp
  with r0 have "select_by_phone (phone r) d \<noteq> []"
    by (auto simp: select_by_phone_def filter_empty_conv)
  with r' show ?thesis by simp
next
  case False
  with assms show ?thesis unfolding users_upsert_profile by auto
qed

lemma changed_rows_upsert_phone:
  assumes "r \<in> set (users (snd (upsert_phone t p d)))" and "r \<notin> set (users d)"
  shows "updated_at r = t \<and> (select_by_phone (phone r) d = [] \<longrightarrow> created_at r = t)"
proof (cases "\<exists>r \<in> set (users d). phone r = p")
  case True
  with assms obtain r0 where r0: "r0 \<in> set (users d)"
    and r: "r = (if phone r0 = p then r0\<lparr>updated_at := t\<rparr> else r0)"
    unfolding users_upsert_phone by auto
  with assms(2) have p0: "phone r0 = p" by (auto split: if_splits)
  with r have r': "r = r0\<lparr>updated_at := t\<rparr>" by simp
  then have "phone r = phone r0" by simp
  with r0 have "select_by_phone (phone r) d \<noteq> []"
    by (auto simp: select_by_phone_def filter_empty_conv)
  with r' show ?thesis by simp
next
  case False
  with assms show ?thesis unfolding users_upsert_phone by auto
qed

lemma changed_rows_update_profile:
  assumes "r \<in> set (users (snd (update_profile t fn ag ad av p d)))" and "r \<notin> set (users d)"
  shows "updated_at r = t \<and> (select_by_phone (phone r) d = [] \<longrightarrow> created_at r = t)"
proof -
  from assms obtain r0 where r0: "r0 \<in> set (users d)"
    and r: "r = (if phone r0 = p
                 then r0\<lparr>full_name := fn, age := ag, address := ad, avatar_url := av,
                         updated_at := t\<rparr>
                 else r0)"
    unfolding users_update_profile by auto
  with assms(2) have p0: "phone r0 = p" by (auto split: if_splits)
  with r have r': "r = r0\<lparr>full_name := fn, age := ag, address := ad, avatar_url := av,
                         updated_at := t\<rparr>" by simp
  then have "phone r = phone r0" by simp
  with r0 have "select_by_phone (phone r) d \<noteq> []"
    by (auto simp: select_by_phone_def filter_empty_conv)
  with r' show ?thesis by simp
qed

lemma changed_rows_handle:
  assumes "r \<in> set (users (snd (handle e ev d)))" and "r \<notin> set (users d)"
  shows "updated_at r = now e \<and> (select_by_phone (phone r) d = [] \<longrightarrow> created_at r = now e)"
proof (cases ev)
  case (GetMe q) with assms show ?thesis by (simp add: snd_get_me)
next
  case (PutMe q) with assms show ?thesis
    by (auto simp add: snd_put_me split: sum.splits if_splits
        dest: changed_rows_upsert_profile)
next
  case (AuthVerify q) with assms show ?thesis
    by (auto simp add: snd_auth_verify split: if_splits dest: changed_rows_upsert_phone)
next
  case (GetMeOtp q) with assms show ?thesis by (simp add: snd_get_me_otp)
next
  case (PutMeOtp q) with assms show ?thesis
    by (auto simp add: snd_put_me_otp split: if_splits dest: changed_rows_update_profile)
qed

lemma requireAuth_missing:
  assumes "AUTH_REQUIRED e"
    and "authorization req = None \<or>
         (\<exists>h. authorization req = Some h \<and> \<not> prefix ''Bearer '' h) \<or>
         authorization req = Some ''Bearer ''"
  shows "requireAuth e req = Inl (401, Error ''missing_token'')"
  using assms by (auto simp: requireAuth_def bearer_token_def truthy_def Let_def)

lemma requireAuth_invalid:
  assumes "AUTH_REQUIRED e" and "tok \<noteq> []"
    and "authorization req = Some (''Bearer '' @ tok)" and "verifyIdToken e tok = None"
  shows "requireAuth e req = Inl (401, Error ''invalid_token'')"
  using assms by (simp add: requireAuth_def bearer_token_def truthy_def Let_def)

lemma truthy_None: "\<not> truthy None"
  by (simp add: truthy_def)

lemma truthy_js_or_None: "truthy (js_or a None) = truthy a"
  by (simp add: js_or_def truthy_None)

lemma get_me_status:
  "fst (fst (get_me e req d)) =
     (case outcome_spec e req (query_phone req) of Inl f \<Rightarrow> http_status f | Inr p \<Rightarrow> 200)"
proof (cases "AUTH_REQUIRED e")
  case False
  then show ?thesis
    by (simp add: get_me_def get_me_handler_def get_me_phone_def requireAuth_def
        outcome_spec_def resolve_spec_def truthy_js_or_None Let_def)
next
  case True
  show ?thesis
  proof (cases "truthy (bearer_token (authorization req))")
    case False
    with True show ?thesis
      by (simp add: get_me_def requireAuth_def outcome_spec_def resolve_spec_def Let_def)
  next
    case tok: True
    show ?thesis
    proof (cases "verifyIdToken e (the (bearer_token (authorization req)))")
      case None
      with True tok show ?thesis
        by (simp add: get_me_def requireAuth_def outcome_spec_def resolve_spec_def Let_def)
    next
      case (Some c)
      with True tok show ?thesis
        by (simp add: get_me_def get_me_handler_def get_me_phone_def requireAuth_def
            outcome_spec_def resolve_spec_def auth_phone_def Let_def)
    qed
  qed
qed

lemma put_me_status:
  "fst (fst (put_me e req d)) =
     (case outcome_spec e req (body_phone req) of Inl f \<Rightarrow> http_status f | Inr p \<Rightarrow> 200)"
proof (cases "AUTH_REQUIRED e")
  case False
  then show ?thesis
    by (simp add: put_me_def put_me_handler_def put_me_phone_def requireAuth_def
        outcome_spec_def resolve_spec_def truthy_js_or_None Let_def case_prod_beta)
next
  case True
  show ?thesis
  proof (cases "truthy (bearer_token (authorization req))")
    case False
    with True show ?thesis
      by (simp add: put_me_def requireAuth_def outcome_spec_def resolve_spec_def Let_def)
  next
    case tok: True
    show ?thesis
    proof (cases "verifyIdToken e (the (bearer_token (authorization req)))")
      case None
      with True tok show ?thesis
        by (simp add: put_me_def requireAuth_def outcome_spec_def resolve_spec_def Let_def)
    next
      case (Some c)
      with True tok show ?thesis
        by (simp add: put_me_def put_me_handler_def put_me_phone_def requireAuth_def
            outcome_spec_def resolve_spec_def auth_phone_def Let_def case_prod_beta)
    qed
  qed
qed

lemma snd_auth_verify_ok:
  assumes "body_phone req = Some ph" and "ph \<noteq> []"
    and "body_code req = Some code" and "code \<noteq> []"
    and "verificationChecks e (toE164 ph) code = Some ''approved''"
    and "pool_query_ok e"
  shows "snd (auth_verify e req d) = snd (upsert_phone (now e) (toE164 ph) d)"
  using assms by (simp add: snd_auth_verify truthy_def)

lemma auth_verify_insert:
  assumes "body_phone req = Some ph" and "ph \<noteq> []"
    and "body_code req = Some code" and "code \<noteq> []"
    and "verificationChecks e (toE164 ph) code = Some ''approved''"
    and "pool_query_ok e"
    and "select_by_phone (toE164 ph) d = []"
  shows "users (snd (auth_verify e req d)) = users d @
              [\<lparr>id_col = users_id_seq d, phone = toE164 ph, full_name = None, age = None,
                address = None, avatar_url = None,
                created_at = now e, updated_at = now e\<rparr>] \<and>
         rows_for (toE164 ph) (snd (auth_verify e req d)) = 1"
proof -
  let ?d' = "snd (auth_verify e req d)"
  have d': "?d' = snd (upsert_phone (now e) (toE164 ph) d)"
    using assms by (simp add: snd_auth_verify_ok)
  from assms(7) have "\<not> (\<exists>r \<in> set (users d). phone r = toE164 ph)"
    by (simp add: select_by_phone_Nil_iff)
  then have u: "users ?d' = users d @
              [\<lparr>id_col = users_id_seq d, phone = toE164 ph, full_name = None, age = None,
                address = None, avatar_url = None,
                created_at = now e, updated_at = now e\<rparr>]"
    unfolding d' users_upsert_phone by simp
  from assms(7) have "filter (\<lambda>r. phone r = toE164 ph) (users d) = []"
    by (simp add: select_by_phone_def)
  with u have "rows_for (toE164 ph) ?d' = 1"
    by (simp add: rows_for_def select_by_phone_def)
  with u show ?thesis by simp
qed

lemma auth_verify_existing:
  assumes "body_phone req = Some ph" and "ph \<noteq> []"
    and "body_code req = Some code" and "code \<noteq> []"
    and "verificationChecks e (toE164 ph) code = Some ''approved''"
    and "pool_query_ok e"
    and "select_by_phone (toE164 ph) d \<noteq> []"
  shows "map full_name (users (snd (auth_verify e req d))) = map full_name (users d) \<and>
         map age (users (snd (auth_verify e req d))) = map age (users d) \<and>
         map address (users (snd (auth_verify e req d))) = map address (users d) \<and>
         map avatar_url (users (snd (auth_verify e req d))) = map avatar_url (users d) \<and>
         map created_at (users (snd (auth_verify e req d))) = map created_at (users d) \<and>
         map id_col (users (snd (auth_verify e req d))) = map id_col (users d) \<and>
         map phone (users (snd (auth_verify e req d))) = map phone (users d)"
proof -
  let ?d' = "snd (auth_verify e req d)"
  let ?upd = "\<lambda>r. if phone r = toE164 ph then r\<lparr>updated_at := now e\<rparr> else r"
  have d': "?d' = snd (upsert_phone (now e) (toE164 ph) d)"
    using assms by (simp add: snd_auth_verify_ok)
  from assms(7) have "\<exists>r \<in> set (users d). phone r = toE164 ph"
    by (simp add: select_by_phone_Nil_iff)
  then have u: "users ?d' = map ?upd (users d)"
    unfolding d' users_upsert_phone by simp
  have "map full_name (map ?upd (users d)) = map full_name (users d)"
    and "map age (map ?upd (users d)) = map age (users d)"
    and "map address (map ?upd (users d)) = map address (users d)"
    and "map avatar_url (map ?upd (users d)) = map avatar_url (users d)"
    and "map created_at (map ?upd (users d)) = map created_at (users d)"
    and "map id_col (map ?upd (users d)) = map id_col (users d)"
    and "map phone (map ?upd (users d)) = map phone (users d)"
    by (simp_all add: comp_def if_distrib cong: if_cong)
  with u show ?thesis by simp
qed

lemma phones_put_me_otp: "map phone (users (snd (put_me_otp e req d))) = map phone (users d)"
  by (simp add: snd_put_me_otp users_update_profile comp_def if_distrib cong: if_cong)

lemma phones_run_otp_me:
  "\<forall>x \<in> set evs. is_otp_me (snd x) \<Longrightarrow> map phone (users (run evs d)) = map phone (users d)"
proof (induction evs arbitrary: d)
  case Nil
  then show ?case by simp
next
  case (Cons x evs)
  obtain e ev where x: "x = (e, ev)" by (cases x)
  from Cons.prems have "is_otp_me ev" by (simp add: x)
  then have "map phone (users (snd (handle e ev d))) = map phone (users d)"
    by (cases ev) (simp_all add: is_otp_me_def snd_get_me_otp phones_put_me_otp)
  with Cons show ?case by (simp add: x)
qed

lemma select_map_updated:
  assumes "\<And>r. phone (g r) = phone r" and "\<And>r. updated_at (g r) = t"
  shows "\<forall>r \<in> set (filter (\<lambda>r. phone r = p)
                     (map (\<lambda>r. if phone r = p then g r else r) xs)). updated_at r = t"
  by (induction xs) (simp_all add: assms)

lemma select_map_nonempty:
  assumes "\<And>r. phone (g r) = phone r"
    and "filter (\<lambda>r. phone r = p) xs \<noteq> []"
  shows "filter (\<lambda>r. phone r = p) (map (\<lambda>r. if phone r = p then g r else r) xs) \<noteq> []"
proof -
  from assms(2) obtain r0 where "r0 \<in> set xs" and "phone r0 = p"
    by (auto simp: filter_empty_conv)
  then show ?thesis
    by (intro filter_map_nonempty [of r0]) (simp_all add: assms(1))
qed

lemma select_upsert_profile_created:
  assumes "r \<in> set (select_by_phone p (snd (upsert_profile t p fn ag ad av d)))"
    and "select_by_phone p d = []"
  shows "created_at r = t"
proof -
  from assms(2) have no: "\<not> (\<exists>r \<in> set (users d). phone r = p)"
    by (simp add: select_by_phone_Nil_iff)
  then have u: "users (snd (upsert_profile t p fn ag ad av d)) =
      users d @ [\<lparr>id_col = users_id_seq d, phone = p, full_name = fn, age = ag,
                        address = ad, avatar_url = av, created_at = t, updated_at = t\<rparr>]"
    by (simp add: users_upsert_profile)
  from assms(2) have f: "filter (\<lambda>r. phone r = p) (users d) = []"
    by (simp add: select_by_phone_def)
  from assms(1) have "r = \<lparr>id_col = users_id_seq d, phone = p, full_name = fn, age = ag,
                        address = ad, avatar_url = av, created_at = t, updated_at = t\<rparr>"
    unfolding select_by_phone_def u by (simp add: f)
  then show ?thesis by simp
qed

lemma select_upsert_phone_nonempty:
  "select_by_phone p (snd (upsert_phone t p d)) \<noteq> []"
proof (cases "\<exists>r \<in> set (users d). phone r = p")
  case True
  then have u: "users (snd (upsert_phone t p d)) =
      map (\<lambda>r. if phone r = p then r\<lparr>updated_at := t\<rparr> else r) (users d)"
    by (simp add: users_upsert_phone)
  from True have "filter (\<lambda>r. phone r = p) (users d) \<noteq> []"
    by (simp add: filter_empty_conv)
  then have "filter (\<lambda>r. phone r = p)
      (map (\<lambda>r. if phone r = p then r\<lparr>updated_at := t\<rparr> else r) (users d)) \<noteq> []"
    by (rule select_map_nonempty [rotated]) simp
  then show ?thesis unfolding select_by_phone_def u .
next
  case False
  then show ?thesis unfolding select_by_phone_def users_upsert_phone by simp
qed

lemma select_upsert_phone_stamps:
  assumes "r \<in> set (select_by_phone p (snd (upsert_phone t p d)))"
  shows "updated_at r = t \<and> (select_by_phone p d = [] \<longrightarrow> created_at r = t)"
proof (cases "\<exists>r \<in> set (users d). phone r = p")
  case True
  then have u: "users (snd (upsert_phone t p d)) =
      map (\<lambda>r. if phone r = p then r\<lparr>updated_at := t\<rparr> else r) (users d)"
    by (simp add: users_upsert_phone)
  have "\<forall>r \<in> set (filter (\<lambda>r. phone r = p)
        (map (\<lambda>r. if phone r = p then r\<lparr>updated_at := t\<rparr> else r) (users d))).
          updated_at r = t"
    by (rule select_map_updated) simp_all
  then have "updated_at r = t"
    using assms unfolding select_by_phone_def u by (rule bspec)
  moreover from True have "select_by_phone p d \<noteq> []"
    by (simp add: select_by_phone_Nil_iff)
  ultimately show ?thesis by simp
next
  case False
  then have u: "users (snd (upsert_phone t p d)) =
      users d @ [\<lparr>id_col = users_id_seq d, phone = p, full_name = None, age = None,
                        address = None, avatar_url = None, created_at = t, updated_at = t\<rparr>]"
    by (simp add: users_upsert_phone)
  from False have f: "filter (\<lambda>r. phone r = p) (users d) = []"
    by (simp add: filter_empty_conv)
  from assms have "r = \<lparr>id_col = users_id_seq d, phone = p, full_name = None, age = None,
                        address = None, avatar_url = None, created_at = t, updated_at = t\<rparr>"
    unfolding select_by_phone_def u by (simp add: f)
  then show ?thesis by simp
qed

lemma select_update_profile_nonempty:
  assumes "select_by_phone p d \<noteq> []"
  shows "select_by_phone p (snd (update_profile t fn ag ad av p d)) \<noteq> []"
proof -
  from assms have "filter (\<lambda>r. phone r = p) (users d) \<noteq> []"
    by (simp add: select_by_phone_def)
  then have "filter (\<lambda>r. phone r = p)
      (map (\<lambda>r. if phone r = p
                 then r\<lparr>full_name := fn, age := ag, address := ad, avatar_url := av,
                        updated_at := t\<rparr>
                 else r) (users d)) \<noteq> []"
    by (rule select_map_nonempty [rotated]) simp
  then show ?thesis unfolding select_by_phone_def users_update_profile .
qed

lemma select_update_profile_updated:
  assumes "r \<in> set (select_by_phone p (snd (update_profile t fn ag ad av p d)))"
  shows "updated_at r = t"
proof -
  have "\<forall>r \<in> set (filter (\<lambda>r. phone r = p)
        (map (\<lambda>r. if phone r = p
                   then r\<lparr>full_name := fn, age := ag, address := ad, avatar_url := av,
                          updated_at := t\<rparr>
                   else r) (users d))). updated_at r = t"
    by (rule select_map_updated) simp_all
  then show ?thesis
    using assms unfolding select_by_phone_def users_update_profile by (rule bspec)
qed

lemma snd_put_me_otp_ok:
  assumes "body_phone req = Some p" and "p \<noteq> []" and "pool_query_ok e"
  shows "snd (put_me_otp e req d) =
     snd (update_profile (now e) (fullName req) (body_age req) (body_address req)
            (avatarUrl req) p d)"
  using assms by (simp add: snd_put_me_otp truthy_def)

lemma put_me_stamps:
  assumes "requireAuth e req = Inr a" and "put_me_phone e a req = Some p"
    and "p \<noteq> []" and "pool_query_ok e"
  shows "select_by_phone p (snd (put_me e req d)) \<noteq> [] \<and>
         (\<forall>r \<in> set (select_by_phone p (snd (put_me e req d))).
            updated_at r = now e \<and> (select_by_phone p d = [] \<longrightarrow> created_at r = now e))"
proof (intro conjI ballI impI)
  show "select_by_phone p (snd (put_me e req d)) \<noteq> []"
    unfolding snd_put_me_ok [OF assms] by (rule select_upsert_profile_nonempty)
next
  fix r assume "r \<in> set (select_by_phone p (snd (put_me e req d)))"
  then have r: "r \<in> set (select_by_phone p
      (snd (upsert_profile (now e) p (fullName req) (body_age req) (body_address req)
              (avatarUrl req) d)))"
    unfolding snd_put_me_ok [OF assms] .
  from select_upsert_profile_fields [OF r] show "updated_at r = now e" by simp
  assume "select_by_phone p d = []"
  from select_upsert_profile_created [OF r this] show "created_at r = now e" .
qed

lemma auth_verify_stamps:
  assumes "body_phone req = Some ph" and "ph \<noteq> []"
    and "body_code req = Some code" and "code \<noteq> []"
    and "verificationChecks e (toE164 ph) code = Some ''approved''"
    and "pool_query_ok e"
  shows "select_by_phone (toE164 ph) (snd (auth_verify e req d)) \<noteq> [] \<and>
         (\<forall>r \<in> set (select_by_phone (toE164 ph) (snd (auth_verify e req d))).
            updated_at r = now e \<and>
            (select_by_phone (toE164 ph) d = [] \<longrightarrow> created_at r = now e))"
proof (intro conjI ballI)
  show "select_by_phone (toE164 ph) (snd (auth_verify e req d)) \<noteq> []"
    unfolding snd_auth_verify_ok [OF assms] by (rule select_upsert_phone_nonempty)
next
  fix r assume "r \<in> set (select_by_phone (toE164 ph) (snd (auth_verify e req d)))"
  then have r: "r \<in> set (select_by_phone (toE164 ph)
      (snd (upsert_phone (now e) (toE164 ph) d)))"
    unfolding snd_auth_verify_ok [OF assms] .
  from select_upsert_phone_stamps [OF r]
  show "updated_at r = now e"
    and "select_by_phone (toE164 ph) d = [] \<longrightarrow> created_at r = now e"
    by simp_all
qed

lemma put_me_otp_stamps:
  assumes "body_phone req = Some p" and "p \<noteq> []" and "pool_query_ok e"
    and "select_by_phone p d \<noteq> []"
  shows "select_by_phone p (snd (put_me_otp e req d)) \<noteq> [] \<and>
         (\<forall>r \<in> set (select_by_phone p (snd (put_me_otp e req d))). updated_at r = now e)"
proof (intro conjI ballI)
  show "select_by_phone p (snd (put_me_otp e req d)) \<noteq> []"
    unfolding snd_put_me_otp_ok [OF assms(1-3)]
    by (rule select_update_profile_nonempty [OF assms(4)])
next
  fix r assume "r \<in> set (select_by_phone p (snd (put_me_otp e req d)))"
  then show "updated_at r = now e"
    unfolding snd_put_me_otp_ok [OF assms(1-3)] by (rule select_update_profile_updated)
qed

section \<open>The claims\<close>

text \<open>
  \<^bold>\<open>Claim C1.\<close>  A \<^verbatim>\<open>PUT /me\<close> that resolves to the non-empty phone \<open>p\<close> and reaches
  the store, followed by a \<^verbatim>\<open>GET /me\<close> that resolves to \<open>p\<close> and reaches the
  store, answers 200 with a profile for \<open>p\<close> whose four patchable columns are exactly
  the body's values, a field absent from the body being null.  The starting state is
  arbitrary, so a column set earlier is overwritten, with null too.  Both modes are
  covered: the hypotheses only say that \<open>requireAuth\<close> let the request through and what
  the handler's \<open>phone\<close> expression evaluated to.
\<close>

theorem put_me_then_get_me:
  assumes "requireAuth e1 req1 = Inr a1" and "put_me_phone e1 a1 req1 = Some p"
    and "requireAuth e2 req2 = Inr a2" and "get_me_phone e2 a2 req2 = Some p"
    and "p \<noteq> []" and "pool_query_ok e1" and "pool_query_ok e2"
  shows "\<exists>r. fst (get_me e2 req2 (snd (put_me e1 req1 d))) = (200, Profile r) \<and>
           phone r = p \<and> full_name r = fullName req1 \<and> age r = body_age req1 \<and>
           address r = body_address req1 \<and> avatar_url r = avatarUrl req1"
proof -
  let ?d' = "snd (upsert_profile (now e1) p (fullName req1) (body_age req1)
                    (body_address req1) (avatarUrl req1) d)"
  have put: "snd (put_me e1 req1 d) = ?d'"
    using assms by (simp add: snd_put_me_ok)
  obtain r rs where sel: "select_by_phone p ?d' = r # rs"
    and f: "phone r = p \<and> full_name r = fullName req1 \<and> age r = body_age req1 \<and>
            address r = body_address req1 \<and> avatar_url r = avatarUrl req1 \<and>
            updated_at r = now e1"
    using select_upsert_profile_Cons by blast
  have "fst (get_me e2 req2 ?d') = (200, Profile r)"
    using assms sel by (simp add: fst_get_me_ok first_row_or_null_def)
  with put f show ?thesis by auto
qed

text \<open>The theorem at a concrete input.\<close>

theorem put_me_then_get_me_witness:
  "requireAuth (ex_env False 20) ex_put2 = Inr None \<and>
   put_me_phone (ex_env False 20) None ex_put2 = Some ''+6591234567'' \<and>
   requireAuth (ex_env True 30) (ex_bearer ''good'' ex_request)
     = Inr (Some \<lparr>phone_number = Some ''+6591234567'', phoneNumber = None\<rparr>) \<and>
   get_me_phone (ex_env True 30)
     (Some \<lparr>phone_number = Some ''+6591234567'', phoneNumber = None\<rparr>)
     (ex_bearer ''good'' ex_request) = Some ''+6591234567'' \<and>
   ''+6591234567'' \<noteq> [] \<and> pool_query_ok (ex_env False 20) \<and> pool_query_ok (ex_env True 30) \<and>
   (\<exists>r. fst (get_me (ex_env True 30) (ex_bearer ''good'' ex_request)
              (snd (put_me (ex_env False 20) ex_put2
                 (snd (put_me (ex_env False 10) ex_put1 initDb)))))
          = (200, Profile r) \<and>
        phone r = ''+6591234567'' \<and> full_name r = None \<and> age r = None \<and>
        address r = Some ''12 Orchard Rd'' \<and> avatar_url r = None)"
proof -
  have h1: "requireAuth (ex_env False 20) ex_put2 = Inr None"
    by (simp add: ex_env_def requireAuth_def)
  have h2: "put_me_phone (ex_env False 20) None ex_put2 = Some ''+6591234567''"
    by (simp add: ex_env_def ex_bearer_def ex_put2_def ex_request_def ex_verifier_def
        requireAuth_def bearer_token_def truthy_def auth_phone_def js_or_def
        get_me_phone_def put_me_phone_def Let_def)
  have h3: "requireAuth (ex_env True 30) (ex_bearer ''good'' ex_request)
     = Inr (Some \<lparr>phone_number = Some ''+6591234567'', phoneNumber = None\<rparr>)"
    by (simp add: ex_env_def ex_bearer_def ex_put2_def ex_request_def ex_verifier_def
        requireAuth_def bearer_token_def truthy_def auth_phone_def js_or_def
        get_me_phone_def put_me_phone_def Let_def)
  have h4: "get_me_phone (ex_env True 30)
     (Some \<lparr>phone_number = Some ''+6591234567'', phoneNumber = None\<rparr>)
     (ex_bearer ''good'' ex_request) = Some ''+6591234567''"
    by (simp add: ex_env_def ex_bearer_def ex_put2_def ex_request_def ex_verifier_def
        requireAuth_def bearer_token_def truthy_def auth_phone_def js_or_def
        get_me_phone_def put_me_phone_def Let_def)
  have h5: "''+6591234567'' \<noteq> []" by simp
  have h6: "pool_query_ok (ex_env False 20)" and h7: "pool_query_ok (ex_env True 30)"
    by (simp_all add: ex_env_def)
  have f: "fullName ex_put2 = None" "body_age ex_put2 = None"
    "body_address ex_put2 = Some ''12 Orchard Rd''" "avatarUrl ex_put2 = None"
    by (simp_all add: ex_put2_def ex_request_def)
  from put_me_then_get_me [OF h1 h2 h3 h4 h5 h6 h7,
      of "snd (put_me (ex_env False 10) ex_put1 initDb)"]
  show ?thesis unfolding f using h1 h2 h3 h4 h6 h7 by simp
qed

text \<open>
  \<^bold>\<open>Claim C2.\<close>  Two \<^verbatim>\<open>PUT /me\<close> in a row for the same phone, from a state that
  satisfies the schema's constraints, leave exactly one row for the phone; it carries the
  second body's values, and its \<open>updated_at\<close> is strictly greater than after the first
  call.  The second call comes after the first: \<open>updated_at\<close> is \<open>now()\<close> of the
  statement, and the database clock reads later at the second call, \<open>now e1 < now e2\<close>.
  The two bodies need not differ.
\<close>

theorem put_me_twice:
  assumes "users_inv d"
    and "requireAuth e1 req1 = Inr a1" and "put_me_phone e1 a1 req1 = Some p"
    and "requireAuth e2 req2 = Inr a2" and "put_me_phone e2 a2 req2 = Some p"
    and "p \<noteq> []" and "pool_query_ok e1" and "pool_query_ok e2"
    and "now e1 < now e2"
    and "d1 = snd (put_me e1 req1 d)" and "d2 = snd (put_me e2 req2 d1)"
  shows "\<exists>r1 r2. select_by_phone p d1 = [r1] \<and> select_by_phone p d2 = [r2] \<and>
           rows_for p d2 = 1 \<and>
           full_name r2 = fullName req2 \<and> age r2 = body_age req2 \<and>
           address r2 = body_address req2 \<and> avatar_url r2 = avatarUrl req2 \<and>
           updated_at r1 < updated_at r2"
proof -
  have d1: "d1 = snd (upsert_profile (now e1) p (fullName req1) (body_age req1)
                    (body_address req1) (avatarUrl req1) d)"
    using assms by (simp add: snd_put_me_ok)
  have d2: "d2 = snd (upsert_profile (now e2) p (fullName req2) (body_age req2)
                    (body_address req2) (avatarUrl req2) d1)"
    using assms by (simp add: snd_put_me_ok)
  have inv1: "users_inv d1"
    unfolding d1 by (rule users_inv_upsert_profile [OF assms(1)])
  obtain r1 where r1: "select_by_phone p d1 = [r1]" "updated_at r1 = now e1"
    using select_upsert_profile_single [OF assms(1)] unfolding d1 by blast
  obtain r2 where r2: "select_by_phone p d2 = [r2]" "updated_at r2 = now e2"
    "full_name r2 = fullName req2" "age r2 = body_age req2"
    "address r2 = body_address req2" "avatar_url r2 = avatarUrl req2"
    using select_upsert_profile_single [OF inv1] unfolding d2 by blast
  from r1 r2 assms(9) show ?thesis by (simp add: rows_for_def)
qed

text \<open>The theorem at a concrete input.\<close>

theorem put_me_twice_witness:
  "users_inv initDb \<and>
   requireAuth (ex_env False 10) ex_put1 = Inr None \<and>
   put_me_phone (ex_env False 10) None ex_put1 = Some ''+6591234567'' \<and>
   requireAuth (ex_env True 20) (ex_bearer ''good'' ex_put2)
     = Inr (Some \<lparr>phone_number = Some ''+6591234567'', phoneNumber = None\<rparr>) \<and>
   put_me_phone (ex_env True 20)
     (Some \<lparr>phone_number = Some ''+6591234567'', phoneNumber = None\<rparr>)
     (ex_bearer ''good'' ex_put2) = Some ''+6591234567'' \<and>
   ''+6591234567'' \<noteq> [] \<and> pool_query_ok (ex_env False 10) \<and> pool_query_ok (ex_env True 20) \<and>
   now (ex_env False 10) < now (ex_env True 20) \<and>
   (\<exists>r1 r2.
      select_by_phone ''+6591234567'' (snd (put_me (ex_env False 10) ex_put1 initDb)) = [r1] \<and>
      select_by_phone ''+6591234567''
        (snd (put_me (ex_env True 20) (ex_bearer ''good'' ex_put2)
           (snd (put_me (ex_env False 10) ex_put1 initDb)))) = [r2] \<and>
      rows_for ''+6591234567''
        (snd (put_me (ex_env True 20) (ex_bearer ''good'' ex_put2)
           (snd (put_me (ex_env False 10) ex_put1 initDb)))) = 1 \<and>
      full_name r2 = None \<and> age r2 = None \<and> address r2 = Some ''12 Orchard Rd'' \<and>
      avatar_url r2 = None \<and> updated_at r1 < updated_at r2)"
proof -
  have h0: "users_inv initDb" by (simp add: users_inv_def initDb_def)
  have h1: "requireAuth (ex_env False 10) ex_put1 = Inr None"
    by (simp add: ex_env_def requireAuth_def)
  have h2: "put_me_phone (ex_env False 10) None ex_put1 = Some ''+6591234567''"
    by (simp add: ex_env_def ex_put1_def ex_request_def put_me_phone_def js_or_def truthy_def)
  have h3: "requireAuth (ex_env True 20) (ex_bearer ''good'' ex_put2)
     = Inr (Some \<lparr>phone_number = Some ''+6591234567'', phoneNumber = None\<rparr>)"
    by (simp add: ex_env_def ex_bearer_def ex_verifier_def requireAuth_def bearer_token_def
        truthy_def)
  have h4: "put_me_phone (ex_env True 20)
     (Some \<lparr>phone_number = Some ''+6591234567'', phoneNumber = None\<rparr>)
     (ex_bearer ''good'' ex_put2) = Some ''+6591234567''"
    by (simp add: ex_env_def put_me_phone_def auth_phone_def js_or_def truthy_def)
  have h5: "''+6591234567'' \<noteq> []" by simp
  have h6: "pool_query_ok (ex_env False 10)" and h7: "pool_query_ok (ex_env True 20)"
    and h8: "now (ex_env False 10) < now (ex_env True 20)"
    by (simp_all add: ex_env_def)
  have f: "fullName (ex_bearer ''good'' ex_put2) = None"
    "body_age (ex_bearer ''good'' ex_put2) = None"
    "body_address (ex_bearer ''good'' ex_put2) = Some ''12 Orchard Rd''"
    "avatarUrl (ex_bearer ''good'' ex_put2) = None"
    by (simp_all add: ex_bearer_def ex_put2_def ex_request_def)
  from put_me_twice [OF h0 h1 h2 h3 h4 h5 h6 h7 h8 refl refl]
  show ?thesis unfolding f using h0 h1 h2 h3 h4 h6 h7 h8 by simp
qed

text \<open>
  \<^bold>\<open>Claim C3.\<close>  \<^verbatim>\<open>GET /me\<close> for a resolved phone without a row answers 200 with
  \<open>null\<close> and returns the state it was given, in the Firebase variant and in the OTP
  variant; there is still no row for the phone afterwards.
\<close>

theorem get_me_absent:
  assumes "select_by_phone p d = []" and "p \<noteq> []" and "pool_query_ok e"
  shows "(requireAuth e req = Inr a \<and> get_me_phone e a req = Some p
            \<longrightarrow> get_me e req d = ((200, Null), d)) \<and>
         (query_phone req = Some p \<longrightarrow> get_me_otp e req d = ((200, Null), d)) \<and>
         select_by_phone p (snd (get_me e req d)) = [] \<and>
         select_by_phone p (snd (get_me_otp e req d)) = []"
  using assms
  by (simp add: fst_get_me_ok snd_get_me snd_get_me_otp get_me_otp_def truthy_def
      first_row_or_null_def)

text \<open>The theorem at a concrete input.\<close>

theorem get_me_absent_witness:
  "select_by_phone ''+6591234567'' initDb = [] \<and> ''+6591234567'' \<noteq> [] \<and>
   pool_query_ok (ex_env False 10) \<and>
   requireAuth (ex_env False 10) ex_get = Inr None \<and>
   get_me_phone (ex_env False 10) None ex_get = Some ''+6591234567'' \<and>
   get_me (ex_env False 10) ex_get initDb = ((200, Null), initDb) \<and>
   query_phone ex_get = Some ''+6591234567'' \<and>
   get_me_otp (ex_env False 10) ex_get initDb = ((200, Null), initDb) \<and>
   select_by_phone ''+6591234567'' (snd (get_me (ex_env False 10) ex_get initDb)) = [] \<and>
   select_by_phone ''+6591234567'' (snd (get_me_otp (ex_env False 10) ex_get initDb)) = []"
proof -
  have h1: "select_by_phone ''+6591234567'' initDb = []"
    by (simp add: select_by_phone_def initDb_def)
  have h2: "''+6591234567'' \<noteq> []" by simp
  have h3: "pool_query_ok (ex_env False 10)" by (simp add: ex_env_def)
  have h4: "requireAuth (ex_env False 10) ex_get = Inr None"
    by (simp add: ex_env_def requireAuth_def)
  have h5: "get_me_phone (ex_env False 10) None ex_get = Some ''+6591234567''"
    by (simp add: ex_env_def ex_get_def ex_request_def get_me_phone_def js_or_def truthy_def)
  have h6: "query_phone ex_get = Some ''+6591234567''"
    by (simp add: ex_get_def ex_request_def)
  from get_me_absent [OF h1 h2 h3, of ex_get None] h1 h3 h4 h5 h6
  show ?thesis by simp
qed

text \<open>
  \<^bold>\<open>Claim C4.\<close>  After any history of \<^verbatim>\<open>GET /me\<close>, \<^verbatim>\<open>PUT /me\<close> and
  \<^verbatim>\<open>/auth/verify\<close> requests of either variant, in any environments, there is at most one
  row for each phone: from the empty table \<open>initDb\<close>, and from any state that satisfies
  the schema's constraints (which the history then preserves).
\<close>

theorem phone_unique_run:
  "rows_for p (run evs initDb) \<le> 1 \<and>
   (users_inv d \<longrightarrow> users_inv (run evs d) \<and> rows_for p (run evs d) \<le> 1)"
  using users_inv_rows_for [OF users_inv_run [OF users_inv_initDb], of p evs]
    users_inv_run [of d evs] users_inv_rows_for [of "run evs d" p]
  by simp

text \<open>The theorem at a concrete input.\<close>

theorem phone_unique_run_witness:
  "users_inv initDb \<and>
   users_inv (run [(ex_env False 10, PutMe ex_put1),
                   (ex_env True 20, PutMe (ex_bearer ''good'' ex_put2)),
                   (ex_env False 30, AuthVerify ex_verify)] initDb) \<and>
   rows_for ''+6591234567''
     (run [(ex_env False 10, PutMe ex_put1),
           (ex_env True 20, PutMe (ex_bearer ''good'' ex_put2)),
           (ex_env False 30, AuthVerify ex_verify)] initDb) \<le> 1"
proof -
  have h: "users_inv initDb" by (simp add: users_inv_def initDb_def)
  from phone_unique_run [of "''+6591234567''"
      "[(ex_env False 10, PutMe ex_put1),
        (ex_env True 20, PutMe (ex_bearer ''good'' ex_put2)),
        (ex_env False 30, AuthVerify ex_verify)]" initDb] h
  show ?thesis by blast
qed

text \<open>
  \<^bold>\<open>Claim C5.\<close>  A \<^verbatim>\<open>PUT /me\<close> for a phone that already has a row leaves the
  \<open>id\<close>, \<open>phone\<close> and \<open>created_at\<close> of every row as they were, leaves the rows of
  other phones untouched, and changes in the phone's row exactly the four patchable
  columns and \<open>updated_at\<close>.
\<close>

theorem put_me_frame:
  assumes "requireAuth e req = Inr a" and "put_me_phone e a req = Some p"
    and "p \<noteq> []" and "pool_query_ok e"
    and "select_by_phone p d \<noteq> []"
    and "d' = snd (put_me e req d)"
  shows "map id_col (users d') = map id_col (users d) \<and>
         map phone (users d') = map phone (users d) \<and>
         map created_at (users d') = map created_at (users d) \<and>
         filter (\<lambda>r. phone r \<noteq> p) (users d') = filter (\<lambda>r. phone r \<noteq> p) (users d) \<and>
         users d' = map (\<lambda>r. if phone r = p
                         then r\<lparr>full_name := fullName req, age := body_age req,
                                address := body_address req, avatar_url := avatarUrl req,
                                updated_at := now e\<rparr>
                         else r) (users d)"
proof -
  let ?upd = "\<lambda>r. if phone r = p
                         then r\<lparr>full_name := fullName req, age := body_age req,
                                address := body_address req, avatar_url := avatarUrl req,
                                updated_at := now e\<rparr>
                         else r"
  have ex: "\<exists>r \<in> set (users d). phone r = p"
    using assms(5) by (auto simp: select_by_phone_def filter_empty_conv)
  have u: "users d' = map ?upd (users d)"
    using assms ex by (simp add: snd_put_me_ok users_upsert_profile)
  have "map id_col (map ?upd (users d)) = map id_col (users d)"
    and "map phone (map ?upd (users d)) = map phone (users d)"
    and "map created_at (map ?upd (users d)) = map created_at (users d)"
    by (simp_all add: comp_def if_distrib cong: if_cong)
  moreover have "filter (\<lambda>r. phone r \<noteq> p) (map ?upd (users d))
                   = filter (\<lambda>r. phone r \<noteq> p) (users d)"
    by (rule filter_map_others) simp_all
  ultimately show ?thesis using u by simp
qed

text \<open>The theorem at a concrete input.\<close>

theorem put_me_frame_witness:
  "requireAuth (ex_env False 20) ex_put2 = Inr None \<and>
   put_me_phone (ex_env False 20) None ex_put2 = Some ''+6591234567'' \<and>
   ''+6591234567'' \<noteq> [] \<and> pool_query_ok (ex_env False 20) \<and>
   select_by_phone ''+6591234567'' (snd (put_me (ex_env False 10) ex_put1 initDb)) \<noteq> [] \<and>
   map id_col (users (snd (put_me (ex_env False 20) ex_put2
                       (snd (put_me (ex_env False 10) ex_put1 initDb)))))
     = map id_col (users (snd (put_me (ex_env False 10) ex_put1 initDb))) \<and>
   map phone (users (snd (put_me (ex_env False 20) ex_put2
                       (snd (put_me (ex_env False 10) ex_put1 initDb)))))
     = map phone (users (snd (put_me (ex_env False 10) ex_put1 initDb))) \<and>
   map created_at (users (snd (put_me (ex_env False 20) ex_put2
                       (snd (put_me (ex_env False 10) ex_put1 initDb)))))
     = map created_at (users (snd (put_me (ex_env False 10) ex_put1 initDb)))"
proof -
  have h1: "requireAuth (ex_env False 20) ex_put2 = Inr None"
    by (simp add: ex_env_def requireAuth_def)
  have h2: "put_me_phone (ex_env False 20) None ex_put2 = Some ''+6591234567''"
    by (simp add: ex_env_def ex_put2_def ex_request_def put_me_phone_def js_or_def truthy_def)
  have h3: "''+6591234567'' \<noteq> []" by simp
  have h4: "pool_query_ok (ex_env False 20)" by (simp add: ex_env_def)
  have h5: "select_by_phone ''+6591234567'' (snd (put_me (ex_env False 10) ex_put1 initDb))
              \<noteq> []"
    by (simp add: snd_put_me requireAuth_def put_me_phone_def js_or_def truthy_def
        ex_env_def ex_put1_def ex_request_def initDb_def upsert_profile_def
        select_by_phone_def Let_def)
  from put_me_frame [OF h1 h2 h3 h4 h5 refl] h1 h2 h3 h4 h5
  show ?thesis by blast
qed

text \<open>
  \<^bold>\<open>Claim C6.\<close>  With a database clock that does not run backwards along the
  history (and is not behind the timestamps already stored), every row has
  \<open>created_at \<le> updated_at\<close> after any history of requests.  Every write stamps the
  row it writes:
  \<^item> a \<^verbatim>\<open>PUT /me\<close> that is answered 200 leaves a row for its phone, and every such row
    has \<open>updated_at = now()\<close>; when the phone had no row before, the row was created by
    this request and has \<open>created_at = now()\<close> as well;
  \<^item> the same holds for an approved \<^verbatim>\<open>/auth/verify\<close> and the normalised phone;
  \<^item> a \<^verbatim>\<open>PUT /me\<close> of the OTP variant for a phone that has a row leaves the row with
    \<open>updated_at = now()\<close>;
  \<^item> for any request in any state, a row that differs from all rows before it has
    \<open>updated_at = now()\<close>, and \<open>created_at = now()\<close> if no row had its phone before.
\<close>

theorem timestamps_ordered:
  assumes "ts_inv t d" and "sorted (t # map (\<lambda>x. now (fst x)) evs)"
  shows "(\<forall>r \<in> set (users (run evs d)). created_at r \<le> updated_at r) \<and>
         (\<forall>r \<in> set (users (snd (handle e ev d0))).
             r \<notin> set (users d0) \<longrightarrow>
               updated_at r = now e \<and>
               (select_by_phone (phone r) d0 = [] \<longrightarrow> created_at r = now e)) \<and>
         (requireAuth e1 req1 = Inr a1 \<and> put_me_phone e1 a1 req1 = Some p1 \<and> p1 \<noteq> [] \<and>
          pool_query_ok e1 \<longrightarrow>
            select_by_phone p1 (snd (put_me e1 req1 d1)) \<noteq> [] \<and>
            (\<forall>r \<in> set (select_by_phone p1 (snd (put_me e1 req1 d1))).
               updated_at r = now e1 \<and>
               (select_by_phone p1 d1 = [] \<longrightarrow> created_at r = now e1))) \<and>
         (body_phone req2 = Some ph \<and> ph \<noteq> [] \<and> body_code req2 = Some code \<and> code \<noteq> [] \<and>
          verificationChecks e2 (toE164 ph) code = Some ''approved'' \<and> pool_query_ok e2 \<longrightarrow>
            select_by_phone (toE164 ph) (snd (auth_verify e2 req2 d2)) \<noteq> [] \<and>
            (\<forall>r \<in> set (select_by_phone (toE164 ph) (snd (auth_verify e2 req2 d2))).
               updated_at r = now e2 \<and>
               (select_by_phone (toE164 ph) d2 = [] \<longrightarrow> created_at r = now e2))) \<and>
         (body_phone req3 = Some p3 \<and> p3 \<noteq> [] \<and> pool_query_ok e3 \<and>
          select_by_phone p3 d3 \<noteq> [] \<longrightarrow>
            select_by_phone p3 (snd (put_me_otp e3 req3 d3)) \<noteq> [] \<and>
            (\<forall>r \<in> set (select_by_phone p3 (snd (put_me_otp e3 req3 d3))).
               updated_at r = now e3))"
proof (intro conjI)
  from ts_inv_run [OF assms] obtain t' where "ts_inv t' (run evs d)" ..
  then show "\<forall>r \<in> set (users (run evs d)). created_at r \<le> updated_at r"
    by (simp add: ts_inv_def)
next
  show "\<forall>r \<in> set (users (snd (handle e ev d0))).
             r \<notin> set (users d0) \<longrightarrow>
               updated_at r = now e \<and>
               (select_by_phone (phone r) d0 = [] \<longrightarrow> created_at r = now e)"
    using changed_rows_handle [of _ e ev d0] by blast
next
  show "requireAuth e1 req1 = Inr a1 \<and> put_me_phone e1 a1 req1 = Some p1 \<and> p1 \<noteq> [] \<and>
          pool_query_ok e1 \<longrightarrow>
            select_by_phone p1 (snd (put_me e1 req1 d1)) \<noteq> [] \<and>
            (\<forall>r \<in> set (select_by_phone p1 (snd (put_me e1 req1 d1))).
               updated_at r = now e1 \<and>
               (select_by_phone p1 d1 = [] \<longrightarrow> created_at r = now e1))"
    using put_me_stamps [of e1 req1 a1 p1 d1] by blast
next
  show "body_phone req2 = Some ph \<and> ph \<noteq> [] \<and> body_code req2 = Some code \<and> code \<noteq> [] \<and>
          verificationChecks e2 (toE164 ph) code = Some ''approved'' \<and> pool_query_ok e2 \<longrightarrow>
            select_by_phone (toE164 ph) (snd (auth_verify e2 req2 d2)) \<noteq> [] \<and>
            (\<forall>r \<in> set (select_by_phone (toE164 ph) (snd (auth_verify e2 req2 d2))).
               updated_at r = now e2 \<and>
               (select_by_phone (toE164 ph) d2 = [] \<longrightarrow> created_at r = now e2))"
    using auth_verify_stamps [of req2 ph code e2 d2] by blast
next
  show "body_phone req3 = Some p3 \<and> p3 \<noteq> [] \<and> pool_query_ok e3 \<and>
          select_by_phone p3 d3 \<noteq> [] \<longrightarrow>
            select_by_phone p3 (snd (put_me_otp e3 req3 d3)) \<noteq> [] \<and>
            (\<forall>r \<in> set (select_by_phone p3 (snd (put_me_otp e3 req3 d3))).
               updated_at r = now e3)"
    using put_me_otp_stamps [of req3 p3 e3 d3] by blast
qed

text \<open>The theorem at a concrete input.\<close>

theorem timestamps_ordered_witness:
  "ts_inv 0 initDb \<and>
   sorted (0 # map (\<lambda>x. now (fst x))
                 [(ex_env False 10, PutMe ex_put1),
                  (ex_env True 20, PutMe (ex_bearer ''good'' ex_put2)),
                  (ex_env False 30, AuthVerify ex_verify)]) \<and>
   users (run [(ex_env False 10, PutMe ex_put1),
               (ex_env True 20, PutMe (ex_bearer ''good'' ex_put2)),
               (ex_env False 30, AuthVerify ex_verify)] initDb)
     = [\<lparr>id_col = 1, phone = ''+6591234567'', full_name = None, age = None,
         address = Some ''12 Orchard Rd'', avatar_url = None,
         created_at = 10, updated_at = 30\<rparr>] \<and>
   list_all (\<lambda>r. created_at r \<le> updated_at r)
     (users (run [(ex_env False 10, PutMe ex_put1),
                  (ex_env True 20, PutMe (ex_bearer ''good'' ex_put2)),
                  (ex_env False 30, AuthVerify ex_verify)] initDb)) \<and>
   requireAuth (ex_env False 10) ex_put1 = Inr None \<and>
   put_me_phone (ex_env False 10) None ex_put1 = Some ''+6591234567'' \<and>
   ''+6591234567'' \<noteq> [] \<and> pool_query_ok (ex_env False 10) \<and>
   select_by_phone ''+6591234567'' initDb = [] \<and>
   select_by_phone ''+6591234567'' (snd (put_me (ex_env False 10) ex_put1 initDb))
     = [\<lparr>id_col = 1, phone = ''+6591234567'', full_name = Some ''Ana Tan'', age = Some 29,
         address = None, avatar_url = None, created_at = 10, updated_at = 10\<rparr>] \<and>
   list_all (\<lambda>r. updated_at r = 10 \<and> created_at r = 10)
     (select_by_phone ''+6591234567'' (snd (put_me (ex_env False 10) ex_put1 initDb))) \<and>
   body_phone ex_verify = Some ''6591234567'' \<and> ''6591234567'' \<noteq> [] \<and>
   body_code ex_verify = Some ''123456'' \<and> ''123456'' \<noteq> [] \<and>
   verificationChecks (ex_env False 30) (toE164 ''6591234567'') ''123456''
     = Some ''approved'' \<and>
   pool_query_ok (ex_env False 30) \<and>
   select_by_phone (toE164 ''6591234567'')
     (snd (auth_verify (ex_env False 30) ex_verify
        (snd (put_me (ex_env False 10) ex_put1 initDb))))
     = [\<lparr>id_col = 1, phone = ''+6591234567'', full_name = Some ''Ana Tan'', age = Some 29,
         address = None, avatar_url = None, created_at = 10, updated_at = 30\<rparr>] \<and>
   list_all (\<lambda>r. updated_at r = 30)
     (select_by_phone (toE164 ''6591234567'')
        (snd (auth_verify (ex_env False 30) ex_verify
           (snd (put_me (ex_env False 10) ex_put1 initDb))))) \<and>
   body_phone ex_put2 = Some ''+6591234567'' \<and> pool_query_ok (ex_env False 20) \<and>
   select_by_phone ''+6591234567'' (snd (put_me (ex_env False 10) ex_put1 initDb)) \<noteq> [] \<and>
   select_by_phone ''+6591234567''
     (snd (put_me_otp (ex_env False 20) ex_put2
        (snd (put_me (ex_env False 10) ex_put1 initDb))))
     = [\<lparr>id_col = 1, phone = ''+6591234567'', full_name = None, age = None,
         address = Some ''12 Orchard Rd'', avatar_url = None,
         created_at = 10, updated_at = 20\<rparr>] \<and>
   list_all (\<lambda>r. updated_at r = 20)
     (select_by_phone ''+6591234567''
        (snd (put_me_otp (ex_env False 20) ex_put2
           (snd (put_me (ex_env False 10) ex_put1 initDb)))))"
proof -
  let ?p = "''+6591234567''"
  let ?tr = "[(ex_env False 10, PutMe ex_put1),
              (ex_env True 20, PutMe (ex_bearer ''good'' ex_put2)),
              (ex_env False 30, AuthVerify ex_verify)]"
  let ?row = "\<lparr>id_col = 1, phone = ?p, full_name = Some ''Ana Tan'', age = Some 29,
         address = None, avatar_url = None, created_at = 10, updated_at = 10\<rparr>"
  let ?row2 = "\<lparr>id_col = 1, phone = ?p, full_name = None, age = None,
         address = Some ''12 Orchard Rd'', avatar_url = None,
         created_at = 10, updated_at = 20\<rparr>"
  let ?dA = "snd (put_me (ex_env False 10) ex_put1 initDb)"
  let ?dB = "snd (auth_verify (ex_env False 30) ex_verify ?dA)"
  let ?dC = "snd (put_me_otp (ex_env False 20) ex_put2 ?dA)"
  have h1: "ts_inv 0 initDb" by (simp add: ts_inv_def initDb_def)
  have h2: "sorted (0 # map (\<lambda>x. now (fst x)) ?tr)"
    by (simp add: ex_env_def)
  have a1: "requireAuth (ex_env False 10) ex_put1 = Inr None"
    by (simp add: ex_env_def requireAuth_def)
  have a2: "put_me_phone (ex_env False 10) None ex_put1 = Some ?p"
    by (simp add: ex_env_def ex_put1_def ex_request_def put_me_phone_def js_or_def truthy_def)
  have a3: "?p \<noteq> []" by simp
  have a4: "pool_query_ok (ex_env False 10)" and c2: "pool_query_ok (ex_env False 20)"
    and b5: "pool_query_ok (ex_env False 30)"
    by (simp_all add: ex_env_def)
  have a5: "select_by_phone ?p initDb = []"
    by (simp add: select_by_phone_def initDb_def)
  have dA: "?dA = \<lparr>users = [?row], users_id_seq = 2\<rparr>"
    by (simp add: snd_put_me requireAuth_def put_me_phone_def js_or_def truthy_def
        ex_env_def ex_put1_def ex_request_def initDb_def upsert_profile_def Let_def)
  have b1: "body_phone ex_verify = Some ''6591234567''"
    and b3: "body_code ex_verify = Some ''123456''"
    by (simp_all add: ex_verify_def ex_request_def)
  have b2: "''6591234567'' \<noteq> []" and b4: "''123456'' \<noteq> []" by simp_all
  have b6: "verificationChecks (ex_env False 30) (toE164 ''6591234567'') ''123456''
              = Some ''approved''"
    by (simp add: ex_env_def ex_checks_def)
  have t: "toE164 ''6591234567'' = ?p" by (simp add: toE164_def)
  have c1: "body_phone ex_put2 = Some ?p"
    by (simp add: ex_put2_def ex_request_def)
  have sA: "select_by_phone ?p ?dA = [?row]"
    unfolding dA by (simp add: select_by_phone_def)
  have c3: "select_by_phone ?p ?dA \<noteq> []" unfolding sA by simp
  have lA: "list_all (\<lambda>r. updated_at r = 10 \<and> created_at r = 10) (select_by_phone ?p ?dA)"
    unfolding sA by simp
  have sB: "select_by_phone (toE164 ''6591234567'') ?dB = [?row\<lparr>updated_at := 30\<rparr>]"
    unfolding dA
    by (simp add: snd_auth_verify truthy_def b1 b3 t upsert_phone_def Let_def
        set_updated_at_def ex_env_def ex_checks_def select_by_phone_def)
  have sB': "select_by_phone (toE164 ''6591234567'') ?dB
      = [\<lparr>id_col = 1, phone = ?p, full_name = Some ''Ana Tan'', age = Some 29,
         address = None, avatar_url = None, created_at = 10, updated_at = 30\<rparr>]"
    unfolding sB by simp
  have sC: "select_by_phone ?p ?dC = [?row2]"
    unfolding dA
    by (simp add: snd_put_me_otp truthy_def c1 update_profile_def Let_def
        set_updated_at_def ex_env_def ex_put2_def ex_request_def select_by_phone_def)
  have s2: "snd (put_me (ex_env True 20) (ex_bearer ''good'' ex_put2) ?dA)
              = \<lparr>users = [?row2], users_id_seq = 3\<rparr>"
    unfolding dA
    by (simp add: snd_put_me requireAuth_def put_me_phone_def bearer_token_def auth_phone_def
        js_or_def truthy_def ex_env_def ex_bearer_def ex_put2_def ex_request_def
        ex_verifier_def upsert_profile_def set_updated_at_def Let_def)
  have s3: "snd (auth_verify (ex_env False 30) ex_verify \<lparr>users = [?row2], users_id_seq = 3\<rparr>)
              = \<lparr>users = [?row2\<lparr>updated_at := 30\<rparr>], users_id_seq = 4\<rparr>"
    by (simp add: snd_auth_verify truthy_def b1 b3 t upsert_phone_def Let_def
        set_updated_at_def ex_env_def ex_checks_def)
  have r: "run ?tr initDb = \<lparr>users = [?row2\<lparr>updated_at := 30\<rparr>], users_id_seq = 4\<rparr>"
    by (simp only: run.simps handle.simps s2 s3)
  have uR: "users (run ?tr initDb)
      = [\<lparr>id_col = 1, phone = ?p, full_name = None, age = None,
         address = Some ''12 Orchard Rd'', avatar_url = None,
         created_at = 10, updated_at = 30\<rparr>]"
    unfolding r by simp
  note T = timestamps_ordered [OF h1 h2, where e = "ex_env False 10" and ev = "PutMe ex_put1"
      and ?d0.0 = initDb
      and ?e1.0 = "ex_env False 10" and ?req1.0 = ex_put1
      and ?a1.0 = None and ?p1.0 = ?p and ?d1.0 = initDb
      and ?e2.0 = "ex_env False 30" and ?req2.0 = ex_verify and ph = "''6591234567''"
      and code = "''123456''" and ?d2.0 = ?dA
      and ?e3.0 = "ex_env False 20" and ?req3.0 = ex_put2 and ?p3.0 = ?p and ?d3.0 = ?dA]
  from T have "\<forall>r \<in> set (users (run ?tr initDb)). created_at r \<le> updated_at r"
    by (rule conjunct1)
  then have lR: "list_all (\<lambda>r. created_at r \<le> updated_at r) (users (run ?tr initDb))"
    by (simp only: list_all_iff)
  from T b1 b2 b3 b4 b6 b5
  have "\<forall>r \<in> set (select_by_phone (toE164 ''6591234567'') ?dB). updated_at r = now (ex_env False 30)"
    by blast
  then have lB: "list_all (\<lambda>r. updated_at r = 30) (select_by_phone (toE164 ''6591234567'') ?dB)"
    by (simp add: list_all_iff ex_env_def)
  from T c1 a3 c2 c3
  have "\<forall>r \<in> set (select_by_phone ?p ?dC). updated_at r = now (ex_env False 20)"
    by blast
  then have lC: "list_all (\<lambda>r. updated_at r = 20) (select_by_phone ?p ?dC)"
    by (simp add: list_all_iff ex_env_def)
  show ?thesis
    by (intro conjI) (fact h1 h2 uR lR a1 a2 a3 a4 a5 sA lA b1 b2 b3 b4 b6 b5 sB' lB c1 c2 c3 sC lC)+
qed

text \<open>
  \<^bold>\<open>Claim C7.\<close>  With \<open>AUTH_REQUIRED\<close>: a request without an
  \<^verbatim>\<open>Authorization\<close> header, with one that does not start with \<^verbatim>\<open>Bearer \<close>, or with
  \<^verbatim>\<open>Bearer \<close> and nothing after it, is answered 401 \<^verbatim>\<open>{error: 'missing_token'}\<close>; a
  request with a bearer token that \<open>verifyIdToken\<close> rejects is answered 401
  \<^verbatim>\<open>{error: 'invalid_token'}\<close>.  This holds for \<^verbatim>\<open>GET /me\<close> and \<^verbatim>\<open>PUT /me\<close>, and the
  state returned is the state given.
\<close>

theorem verified_mode_rejects:
  assumes "AUTH_REQUIRED e"
  shows "(authorization req = None \<or>
          (\<exists>h. authorization req = Some h \<and> \<not> prefix ''Bearer '' h) \<or>
          authorization req = Some ''Bearer ''
            \<longrightarrow> get_me e req d = ((401, Error ''missing_token''), d) \<and>
                put_me e req d = ((401, Error ''missing_token''), d)) \<and>
         (tok \<noteq> [] \<and> authorization req' = Some (''Bearer '' @ tok) \<and>
          verifyIdToken e tok = None
            \<longrightarrow> get_me e req' d = ((401, Error ''invalid_token''), d) \<and>
                put_me e req' d = ((401, Error ''invalid_token''), d))"
proof (intro conjI impI)
  assume a: "authorization req = None \<or>
          (\<exists>h. authorization req = Some h \<and> \<not> prefix ''Bearer '' h) \<or>
          authorization req = Some ''Bearer ''"
  from requireAuth_missing [OF assms a]
  show "get_me e req d = ((401, Error ''missing_token''), d)"
    and "put_me e req d = ((401, Error ''missing_token''), d)"
    by (simp_all add: get_me_def put_me_def)
next
  assume a: "tok \<noteq> [] \<and> authorization req' = Some (''Bearer '' @ tok) \<and>
          verifyIdToken e tok = None"
  then have "requireAuth e req' = Inl (401, Error ''invalid_token'')"
    using requireAuth_invalid [OF assms] by blast
  then show "get_me e req' d = ((401, Error ''invalid_token''), d)"
    and "put_me e req' d = ((401, Error ''invalid_token''), d)"
    by (simp_all add: get_me_def put_me_def)
qed

text \<open>The theorem at a concrete input.\<close>

theorem verified_mode_rejects_witness:
  "AUTH_REQUIRED (ex_env True 10) \<and>
   authorization ex_get = None \<and>
   get_me (ex_env True 10) ex_get initDb = ((401, Error ''missing_token''), initDb) \<and>
   put_me (ex_env True 10) ex_get initDb = ((401, Error ''missing_token''), initDb) \<and>
   ''expired'' \<noteq> [] \<and>
   authorization (ex_bearer ''expired'' ex_put1) = Some (''Bearer '' @ ''expired'') \<and>
   verifyIdToken (ex_env True 10) ''expired'' = None \<and>
   get_me (ex_env True 10) (ex_bearer ''expired'' ex_put1) initDb
     = ((401, Error ''invalid_token''), initDb) \<and>
   put_me (ex_env True 10) (ex_bearer ''expired'' ex_put1) initDb
     = ((401, Error ''invalid_token''), initDb)"
proof -
  have h1: "AUTH_REQUIRED (ex_env True 10)" by (simp add: ex_env_def)
  have h2: "authorization ex_get = None" by (simp add: ex_get_def ex_request_def)
  have h3: "''expired'' \<noteq> []" by simp
  have h4: "authorization (ex_bearer ''expired'' ex_put1) = Some (''Bearer '' @ ''expired'')"
    by (simp add: ex_bearer_def)
  have h5: "verifyIdToken (ex_env True 10) ''expired'' = None"
    by (simp add: ex_env_def ex_verifier_def)
  from verified_mode_rejects [OF h1, of ex_get initDb "''expired''"
      "ex_bearer ''expired'' ex_put1"] h1 h2 h3 h4 h5
  show ?thesis by blast
qed

text \<open>
  \<^bold>\<open>Claim C8\<close> says that a verified token whose claims hold no phone number is
  answered 401.  The handlers run the same \<^verbatim>\<open>if (!phone) return res.status(400)\<close> in both
  modes, so that request is answered 400 \<^verbatim>\<open>{error: 'missing_phone'}\<close>:
\<close>

theorem missing_phone_claim_status:
  "AUTH_REQUIRED (ex_env True 10) \<and>
   resolve_spec (ex_env True 10) (ex_bearer ''nophone'' ex_get) (query_phone ex_get)
     = Inl MissingPhoneClaim \<and>
   get_me (ex_env True 10) (ex_bearer ''nophone'' ex_get) initDb
     = ((400, Error ''missing_phone''), initDb) \<and>
   put_me (ex_env True 10) (ex_bearer ''nophone'' ex_put1) initDb
     = ((400, Error ''missing_phone''), initDb) \<and>
   fst (fst (get_me (ex_env True 10) (ex_bearer ''nophone'' ex_get) initDb)) \<noteq> 401"
  by (simp add: ex_env_def ex_bearer_def ex_get_def ex_put1_def ex_request_def ex_verifier_def
      resolve_spec_def get_me_def put_me_def get_me_handler_def put_me_handler_def
      get_me_phone_def put_me_phone_def requireAuth_def bearer_token_def truthy_def
      auth_phone_def js_or_def Let_def)

text \<open>
  \<^bold>\<open>Claim C8, amended.\<close>  Each failure kind has one status: 400 for a missing phone
  in either mode (an empty caller-supplied field in trusted-input mode, or a verified
  token whose claims hold no phone number), 401 for a missing or an invalid token, 500
  for a store failure; a request that fails in no way is answered 200.
\<close>

theorem failure_status_map:
  "fst (fst (get_me e req d)) =
     (case outcome_spec e req (query_phone req) of Inl f \<Rightarrow> http_status f | Inr p \<Rightarrow> 200) \<and>
   fst (fst (put_me e req d)) =
     (case outcome_spec e req (body_phone req) of Inl f \<Rightarrow> http_status f | Inr p \<Rightarrow> 200)"
  by (simp only: get_me_status put_me_status simp_thms)

text \<open>The theorem at a concrete input.\<close>

theorem failure_status_map_witness:
  "outcome_spec (ex_env True 10) (ex_bearer ''nophone'' ex_get) (query_phone ex_get)
     = Inl MissingPhoneClaim \<and>
   fst (fst (get_me (ex_env True 10) (ex_bearer ''nophone'' ex_get) initDb)) = 400 \<and>
   outcome_spec (ex_env True 10) (ex_bearer ''nophone'' ex_get) (body_phone ex_get)
     = Inl MissingPhoneClaim \<and>
   fst (fst (put_me (ex_env True 10) (ex_bearer ''nophone'' ex_get) initDb)) = 400"
proof -
  have q: "query_phone (ex_bearer ''nophone'' ex_get) = query_phone ex_get"
    "body_phone (ex_bearer ''nophone'' ex_get) = body_phone ex_get"
    by (simp_all add: ex_bearer_def)
  have o: "outcome_spec (ex_env True 10) (ex_bearer ''nophone'' ex_get) f
             = Inl MissingPhoneClaim" for f
    by (simp add: outcome_spec_def resolve_spec_def ex_env_def ex_bearer_def ex_verifier_def
        bearer_token_def truthy_def js_or_def Let_def)
  from failure_status_map [of "ex_env True 10" "ex_bearer ''nophone'' ex_get" initDb]
  show ?thesis unfolding q o by simp
qed

text \<open>
  \<^bold>\<open>Claim C9.\<close>  An approved \<^verbatim>\<open>/auth/verify\<close> that reaches the store: when the
  normalised phone has no row, appends exactly one row for it, with the next \<open>id\<close>,
  null descriptive columns and both timestamps \<open>now()\<close>; when it has a row, leaves
  \<open>full_name\<close>, \<open>age\<close>, \<open>address\<close>, \<open>avatar_url\<close> and \<open>created_at\<close> (and \<open>id\<close>,
  \<open>phone\<close>) of every row as they were.
\<close>

theorem auth_verify_approved:
  assumes "body_phone req = Some ph" and "ph \<noteq> []"
    and "body_code req = Some code" and "code \<noteq> []"
    and "verificationChecks e (toE164 ph) code = Some ''approved''"
    and "pool_query_ok e"
  shows "(select_by_phone (toE164 ph) d = [] \<longrightarrow>
            users (snd (auth_verify e req d)) = users d @
              [\<lparr>id_col = users_id_seq d, phone = toE164 ph, full_name = None, age = None,
                address = None, avatar_url = None,
                created_at = now e, updated_at = now e\<rparr>] \<and>
            rows_for (toE164 ph) (snd (auth_verify e req d)) = 1) \<and>
         (select_by_phone (toE164 ph) d2 \<noteq> [] \<longrightarrow>
            map full_name (users (snd (auth_verify e req d2))) = map full_name (users d2) \<and>
            map age (users (snd (auth_verify e req d2))) = map age (users d2) \<and>
            map address (users (snd (auth_verify e req d2))) = map address (users d2) \<and>
            map avatar_url (users (snd (auth_verify e req d2))) = map avatar_url (users d2) \<and>
            map created_at (users (snd (auth_verify e req d2))) = map created_at (users d2) \<and>
            map id_col (users (snd (auth_verify e req d2))) = map id_col (users d2) \<and>
            map phone (users (snd (auth_verify e req d2))) = map phone (users d2))"
  using auth_verify_insert [OF assms, of d] auth_verify_existing [OF assms, of d2]
  by blast

text \<open>The theorem at a concrete input.\<close>

theorem auth_verify_approved_witness:
  "body_phone ex_verify = Some ''6591234567'' \<and> ''6591234567'' \<noteq> [] \<and>
   body_code ex_verify = Some ''123456'' \<and> ''123456'' \<noteq> [] \<and>
   verificationChecks (ex_env False 30) (toE164 ''6591234567'') ''123456''
     = Some ''approved'' \<and>
   pool_query_ok (ex_env False 30) \<and>
   select_by_phone (toE164 ''6591234567'') initDb = [] \<and>
   users (snd (auth_verify (ex_env False 30) ex_verify initDb))
     = [\<lparr>id_col = 1, phone = ''+6591234567'', full_name = None, age = None,
         address = None, avatar_url = None, created_at = 30, updated_at = 30\<rparr>] \<and>
   rows_for ''+6591234567'' (snd (auth_verify (ex_env False 30) ex_verify initDb)) = 1 \<and>
   select_by_phone (toE164 ''6591234567'') (snd (put_me (ex_env False 10) ex_put1 initDb))
     \<noteq> [] \<and>
   map full_name (users (snd (auth_verify (ex_env False 30) ex_verify
                           (snd (put_me (ex_env False 10) ex_put1 initDb)))))
     = [Some ''Ana Tan''] \<and>
   map age (users (snd (auth_verify (ex_env False 30) ex_verify
                           (snd (put_me (ex_env False 10) ex_put1 initDb)))))
     = [Some 29] \<and>
   map created_at (users (snd (auth_verify (ex_env False 30) ex_verify
                           (snd (put_me (ex_env False 10) ex_put1 initDb)))))
     = [10]"
proof -
  have h1: "body_phone ex_verify = Some ''6591234567''"
    and h3: "body_code ex_verify = Some ''123456''"
    by (simp_all add: ex_verify_def ex_request_def)
  have h2: "''6591234567'' \<noteq> []" and h4: "''123456'' \<noteq> []" by simp_all
  have h5: "verificationChecks (ex_env False 30) (toE164 ''6591234567'') ''123456''
              = Some ''approved''"
    by (simp add: ex_env_def ex_checks_def)
  have h6: "pool_query_ok (ex_env False 30)" by (simp add: ex_env_def)
  have t: "toE164 ''6591234567'' = ''+6591234567''" by (simp add: toE164_def)
  have d1: "snd (put_me (ex_env False 10) ex_put1 initDb)
              = \<lparr>users = [\<lparr>id_col = 1, phone = ''+6591234567'', full_name = Some ''Ana Tan'',
                   age = Some 29, address = None, avatar_url = None, created_at = 10,
                   updated_at = 10\<rparr>], users_id_seq = 2\<rparr>"
    by (simp add: snd_put_me requireAuth_def put_me_phone_def js_or_def truthy_def
        ex_env_def ex_put1_def ex_request_def initDb_def upsert_profile_def Let_def)
  have e: "users initDb = []" "users_id_seq initDb = 1" "now (ex_env False 30) = 30"
    "select_by_phone p initDb = []" for p
    by (simp_all add: initDb_def ex_env_def select_by_phone_def)
  from auth_verify_approved [OF h1 h2 h3 h4 h5 h6, of initDb
      "snd (put_me (ex_env False 10) ex_put1 initDb)"] h1 h3 h5 h6
  show ?thesis unfolding t e d1 by (simp add: select_by_phone_def)
qed

text \<open>
  \<^bold>\<open>Claim C10.\<close>  In the OTP variant, \<^verbatim>\<open>PUT /me\<close> for a phone without a row
  answers 200 with \<open>null\<close> and returns the state it was given.  No \<^verbatim>\<open>PUT /me\<close> of that
  variant, whatever its request, changes the list of phones in the table, and neither
  does any history made of that variant's \<^verbatim>\<open>GET /me\<close> and \<^verbatim>\<open>PUT /me\<close> only: rows come
  from \<^verbatim>\<open>/auth/verify\<close>.
\<close>

theorem put_me_otp_absent:
  assumes "body_phone req = Some p" and "p \<noteq> []" and "pool_query_ok e"
    and "select_by_phone p d = []"
  shows "put_me_otp e req d = ((200, Null), d) \<and>
         map phone (users (snd (put_me_otp e' req' d0))) = map phone (users d0) \<and>
         ((\<forall>x \<in> set evs. is_otp_me (snd x)) \<longrightarrow>
            map phone (users (run evs d0)) = map phone (users d0))"
proof -
  from assms(4) have "\<forall>r \<in> set (users d). phone r \<noteq> p"
    by (simp add: select_by_phone_Nil_iff)
  then have "map (\<lambda>r. if phone r = p
                 then set_updated_at (now e)
                        (r\<lparr>full_name := fullName req, age := body_age req,
                           address := body_address req, avatar_url := avatarUrl req\<rparr>)
                 else r) (users d) = users d"
    by (simp add: map_idI)
  with assms have "put_me_otp e req d = ((200, Null), d)"
    by (simp add: put_me_otp_def update_profile_def truthy_def Let_def first_row_or_null_def)
  then show ?thesis using phones_put_me_otp phones_run_otp_me by blast
qed

text \<open>The theorem at a concrete input.\<close>

theorem put_me_otp_absent_witness:
  "body_phone ex_put1 = Some ''+6591234567'' \<and> ''+6591234567'' \<noteq> [] \<and>
   pool_query_ok (ex_env False 10) \<and> select_by_phone ''+6591234567'' initDb = [] \<and>
   put_me_otp (ex_env False 10) ex_put1 initDb = ((200, Null), initDb) \<and>
   map phone (users (snd (put_me_otp (ex_env False 20) ex_put2
                            (snd (auth_verify (ex_env False 10) ex_verify initDb)))))
     = map phone (users (snd (auth_verify (ex_env False 10) ex_verify initDb))) \<and>
   list_all (\<lambda>x. is_otp_me (snd x))
     [(ex_env False 10, PutMeOtp ex_put1), (ex_env False 20, GetMeOtp ex_get)] \<and>
   map phone (users (run [(ex_env False 10, PutMeOtp ex_put1),
                          (ex_env False 20, GetMeOtp ex_get)] initDb)) = []"
proof -
  have h1: "body_phone ex_put1 = Some ''+6591234567''"
    by (simp add: ex_put1_def ex_request_def)
  have h2: "''+6591234567'' \<noteq> []" by simp
  have h3: "pool_query_ok (ex_env False 10)" by (simp add: ex_env_def)
  have h4: "select_by_phone ''+6591234567'' initDb = []"
    by (simp add: select_by_phone_def initDb_def)
  have h5: "list_all (\<lambda>x. is_otp_me (snd x))
     [(ex_env False 10, PutMeOtp ex_put1), (ex_env False 20, GetMeOtp ex_get)]"
    by (simp add: is_otp_me_def)
  have e: "users initDb = []" by (simp add: initDb_def)
  from put_me_otp_absent [OF h1 h2 h3 h4, where e' = "ex_env False 20" and req' = ex_put2
      and ?d0.0 = "snd (auth_verify (ex_env False 10) ex_verify initDb)"
      and evs = "[]"]
    put_me_otp_absent [OF h1 h2 h3 h4, where e' = "ex_env False 20" and req' = ex_put2
      and ?d0.0 = initDb
      and evs = "[(ex_env False 10, PutMeOtp ex_put1), (ex_env False 20, GetMeOtp ex_get)]"]
    h1 h3 h4 h5
  show ?thesis by (simp add: list_all_iff snd_get_me_otp e)
qed

end
